theory Spec2Isabelle
  imports Main "HOL-Library.Multiset"
begin

section \<open>Data model\<close>

text \<open>
  Package \<open>device\<close> of the CPU driver: three device managers (individual core, socket
  grouped, NUMA grouped), their \<open>CreateSlices\<close> and \<open>AllocateCPUs\<close> methods, the attribute
  builders and the shared constants. Go's \<open>int\<close> and \<open>int64\<close> are modelled as \<open>int\<close>: the
  only arithmetic the package does on them is the device counter \<open>devId++\<close>, bounded by the
  number of CPUs, and \<open>Size()\<close> of a CPU set.
\<close>

subsection \<open>Topology description (package cpuinfo)\<close>

text \<open>
  \<open>cpuinfo.CPUInfo\<close> with the fields the device package reads. \<open>CoreType\<close> holds the text
  that \<open>CoreType.String()\<close> yields.
\<close>

record CPUInfo =
  CpuID :: int
  CoreID :: int
  SocketID :: int
  NUMANodeID :: int
  UncoreCacheID :: int
  SiblingCpuID :: int
  CoreType :: string

text \<open>
  \<open>cpuinfo.CPUDetails\<close> is the Go map \<open>map[int]CPUInfo\<close>. A Go map is visited by
  \<open>range\<close> in an unspecified order, and the device package ranges over it, so the model is
  the list of the map's entries in the order one run visits them; the keys of a map are
  distinct (\<open>distinctKeys\<close>). Two lists with the same set of entries are the same Go map
  visited in two orders.
\<close>

type_synonym CPUDetails = "(int \<times> CPUInfo) list"

record CPUTopology =
  SMTEnabled :: bool
  CPUDetails :: CPUDetails

definition distinctKeys :: "CPUDetails \<Rightarrow> bool" where
  "distinctKeys d = distinct (map fst d)"

text \<open>
  The zero value of \<open>CPUInfo\<close>, which reading a Go map at a missing key yields.
  Modelled from the spec: the text of the zero core type is declared in package cpuinfo,
  which is not among the sources; the empty text stands for it.
\<close>

definition zeroCPUInfo :: CPUInfo where
  "zeroCPUInfo = \<lparr>CpuID = 0, CoreID = 0, SocketID = 0, NUMANodeID = 0,
     UncoreCacheID = 0, SiblingCpuID = 0, CoreType = []\<rparr>"

text \<open>\<open>m[k]\<close> of a Go map: the zero value when the key is missing.\<close>

definition lookupCPUInfo :: "(int \<rightharpoonup> CPUInfo) \<Rightarrow> int \<Rightarrow> CPUInfo" where
  "lookupCPUInfo m k = (case m k of None \<Rightarrow> zeroCPUInfo | Some info \<Rightarrow> info)"

text \<open>
  Modelled from the spec: the derived queries of the topology (``list of socket IDs, list
  of NUMA node IDs, CPU set within a given socket, CPU set within a given NUMA node'') are
  methods of \<open>CPUDetails\<close> in package cpuinfo, which is not among the sources. A CPU set is
  an \<open>int set\<close>; the CPUs of the map are its keys.
\<close>

definition Sockets :: "CPUDetails \<Rightarrow> int set" where
  "Sockets d = set (map (\<lambda>e. SocketID (snd e)) d)"

definition NUMANodes :: "CPUDetails \<Rightarrow> int set" where
  "NUMANodes d = set (map (\<lambda>e. NUMANodeID (snd e)) d)"

definition CPUsInSockets :: "CPUDetails \<Rightarrow> int \<Rightarrow> int set" where
  "CPUsInSockets d i = set (map fst (filter (\<lambda>e. SocketID (snd e) = i) d))"

definition CPUsInNUMANodes :: "CPUDetails \<Rightarrow> int \<Rightarrow> int set" where
  "CPUsInNUMANodes d i = set (map fst (filter (\<lambda>e. NUMANodeID (snd e) = i) d))"

text \<open>\<open>cpuset.CPUSet.List()\<close>: the members in ascending order.\<close>

definition cpusetList :: "int set \<Rightarrow> int list" where
  "cpusetList s = sorted_list_of_set s"

subsection \<open>Devices\<close>

datatype DeviceAttribute = IntValue int | StringValue string | BoolValue bool

text \<open>
  \<open>resourceapi.Device\<close>: the capacity map holds, per qualified name, the value of the
  quantity; \<open>AllowMultipleAllocations\<close> is a pointer, \<open>None\<close> when nil.
\<close>

record Device =
  Name :: string
  Attributes :: "string \<rightharpoonup> DeviceAttribute"
  Capacity :: "string \<rightharpoonup> int"
  AllowMultipleAllocations :: "bool option"

subsection \<open>Constants (consts.go)\<close>

definition maxDevicesPerResourceSlice :: nat where
  "maxDevicesPerResourceSlice = 128"

definition cpuDevicePrefix :: string where
  "cpuDevicePrefix = ''cpudev''"

definition cpuResourceQualifiedName :: string where
  "cpuResourceQualifiedName = ''dra.cpu/cpu''"

definition cpuDeviceSocketGroupedPrefix :: string where
  "cpuDeviceSocketGroupedPrefix = ''cpudevsocket''"

definition cpuDeviceNUMAGroupedPrefix :: string where
  "cpuDeviceNUMAGroupedPrefix = ''cpudevnuma''"

subsection \<open>Device names: \<open>fmt.Sprintf("%s%03d", prefix, n)\<close>\<close>

definition digitChar :: "nat \<Rightarrow> char" where
  "digitChar d = ''0123456789'' ! (d mod 10)"

function fmtDecimal :: "nat \<Rightarrow> string" where
  "fmtDecimal n = (if n < 10 then [digitChar n] else fmtDecimal (n div 10) @ [digitChar (n mod 10)])"
  by pat_completeness auto
termination
  by (relation "measure id") auto

declare fmtDecimal.simps [simp del]

definition padZero :: "nat \<Rightarrow> string \<Rightarrow> string" where
  "padZero w s = replicate (w - length s) (CHR ''0'') @ s"

text \<open>
  The verb \<open>%03d\<close>: the decimal digits padded with zeros to width 3; for a negative
  number the sign counts towards the width (\<open>-1\<close> is printed \<open>-01\<close>).
\<close>

definition fmt03d :: "int \<Rightarrow> string" where
  "fmt03d n = (if 0 \<le> n then padZero 3 (fmtDecimal (nat n))
               else CHR ''-'' # padZero 2 (fmtDecimal (nat (- n))))"

definition deviceNameOf :: "string \<Rightarrow> int \<Rightarrow> string" where
  "deviceNameOf prefix n = prefix @ fmt03d n"

subsection \<open>Attribute builders\<close>

definition MakeIndividualAttributes :: "CPUInfo \<Rightarrow> (string \<rightharpoonup> DeviceAttribute)" where
  "MakeIndividualAttributes cpu =
     [''dra.cpu/numaNodeID'' \<mapsto> IntValue (NUMANodeID cpu),
      ''dra.cpu/cacheL3ID'' \<mapsto> IntValue (UncoreCacheID cpu),
      ''dra.cpu/coreType'' \<mapsto> StringValue (CoreType cpu),
      ''dra.cpu/socketID'' \<mapsto> IntValue (SocketID cpu),
      ''dra.cpu/coreID'' \<mapsto> IntValue (CoreID cpu),
      ''dra.cpu/cpuID'' \<mapsto> IntValue (CpuID cpu),
      ''dra.net/numaNode'' \<mapsto> IntValue (NUMANodeID cpu)]"

definition MakeGroupedAttributes ::
  "CPUTopology \<Rightarrow> int \<Rightarrow> int set \<Rightarrow> (string \<rightharpoonup> DeviceAttribute)" where
  "MakeGroupedAttributes topo socketID allocatableCPUs =
     [''dra.cpu/socketID'' \<mapsto> IntValue socketID,
      ''dra.cpu/numCPUs'' \<mapsto> IntValue (int (card allocatableCPUs)),
      ''dra.cpu/smtEnabled'' \<mapsto> BoolValue (SMTEnabled topo)]"

subsection \<open>\<open>slices.Chunk\<close>\<close>

text \<open>
  \<open>slices.Chunk(s, n)\<close> yields the consecutive sub-slices of up to \<open>n\<close> elements and
  panics when \<open>n < 1\<close>; the package calls it only with \<open>maxDevicesPerResourceSlice\<close>, so
  the model gives no chunk for \<open>n = 0\<close>.
\<close>

function Chunk :: "'a list \<Rightarrow> nat \<Rightarrow> 'a list list" where
  "Chunk s n = (if s = [] \<or> n = 0 then [] else take n s # Chunk (drop n s) n)"
  by pat_completeness auto
termination
  by (relation "measure (\<lambda>(s, n). length s)") auto

declare Chunk.simps [simp del]

section \<open>The individual core manager\<close>

text \<open>The fields the three manager structs share, then each manager's own index.\<close>

record Manager =
  driverName :: string
  cpuTopology :: CPUTopology
  reservedCPUs :: "int set"

record IndividualCoreManager = Manager +
  deviceNameToCPUID :: "string \<rightharpoonup> int"

definition NewIndividualCoreManager ::
  "string \<Rightarrow> CPUTopology \<Rightarrow> int set \<Rightarrow> IndividualCoreManager" where
  "NewIndividualCoreManager name topo resv =
     \<lparr>driverName = name, cpuTopology = topo, reservedCPUs = resv,
      deviceNameToCPUID = Map.empty\<rparr>"

text \<open>
  The first loop of \<open>CreateSlices\<close> ranges over the map: \<open>allCPUs\<close> are its values in
  the order visited, \<open>availableCPUs\<close> those whose \<open>CpuID\<close> is not reserved, then sorted by
  \<open>CpuID\<close>. \<open>sort.Slice\<close> is not stable; the model sorts stably, and the order of equal
  keys that \<open>sort.Slice\<close> may produce is covered by the order of the entries, which is
  arbitrary already.
\<close>

definition allCPUs :: "CPUTopology \<Rightarrow> CPUInfo list" where
  "allCPUs topo = map snd (CPUDetails topo)"

definition availableCPUs :: "CPUTopology \<Rightarrow> int set \<Rightarrow> CPUInfo list" where
  "availableCPUs topo resv =
     sort_key CpuID (filter (\<lambda>cpu. CpuID cpu \<notin> resv) (allCPUs topo))"

text \<open>\<open>cpuInfoMap[info.CpuID] = info\<close> for each of \<open>allCPUs\<close> in turn.\<close>

definition cpuInfoMap :: "CPUInfo list \<Rightarrow> (int \<rightharpoonup> CPUInfo)" where
  "cpuInfoMap cpus = fold (\<lambda>info m. m(CpuID info \<mapsto> info)) cpus Map.empty"

text \<open>
  The grouping loop over \<open>availableCPUs\<close>; \<open>processed\<close> is the key set of
  \<open>processedCpus\<close>, and the groups are returned in the order they are appended.
\<close>

fun groupLoop ::
  "int set \<Rightarrow> (int \<rightharpoonup> CPUInfo) \<Rightarrow> int set \<Rightarrow> CPUInfo list \<Rightarrow> CPUInfo list list" where
  "groupLoop resv m processed [] = []"
| "groupLoop resv m processed (cpu # rest) =
     (if CpuID cpu \<in> processed then groupLoop resv m processed rest
      else if SiblingCpuID cpu = - 1 \<or> SiblingCpuID cpu \<in> resv
        then [cpu] # groupLoop resv m (insert (CpuID cpu) processed) rest
      else [cpu, lookupCPUInfo m (SiblingCpuID cpu)]
             # groupLoop resv m (insert (SiblingCpuID cpu) (insert (CpuID cpu) processed)) rest)"

text \<open>
  \<open>coreGroups\<close> after the second \<open>sort.Slice\<close>, by the \<open>CpuID\<close> of each group's first
  member (every group has one).
\<close>

definition coreGroups :: "CPUTopology \<Rightarrow> int set \<Rightarrow> CPUInfo list list" where
  "coreGroups topo resv =
     sort_key (\<lambda>g. CpuID (hd g))
       (groupLoop resv (cpuInfoMap (allCPUs topo)) {} (availableCPUs topo resv))"

text \<open>
  The device loop: one device per CPU of each group in turn, \<open>devId\<close> counting up, the
  index updated on the way.
\<close>

definition individualDevice :: "string \<Rightarrow> CPUInfo \<Rightarrow> Device" where
  "individualDevice deviceName cpu =
     \<lparr>Name = deviceName, Attributes = MakeIndividualAttributes cpu,
      Capacity = Map.empty, AllowMultipleAllocations = None\<rparr>"

fun deviceLoop ::
  "int \<Rightarrow> (string \<rightharpoonup> int) \<Rightarrow> CPUInfo list \<Rightarrow> Device list \<times> (string \<rightharpoonup> int)" where
  "deviceLoop devId idx [] = ([], idx)"
| "deviceLoop devId idx (cpu # cpus) =
     (let deviceName = deviceNameOf cpuDevicePrefix devId;
          (ds, idx') = deviceLoop (devId + 1) (idx(deviceName \<mapsto> CpuID cpu)) cpus
      in (individualDevice deviceName cpu # ds, idx'))"

definition allDevices :: "IndividualCoreManager \<Rightarrow> Device list" where
  "allDevices mgr =
     fst (deviceLoop 0 (deviceNameToCPUID mgr)
            (concat (coreGroups (cpuTopology mgr) (reservedCPUs mgr))))"

text \<open>
  \<open>CreateSlices\<close> returns the chunks and leaves the index in the manager: the model
  returns both.
\<close>

definition IndividualCreateSlices ::
  "IndividualCoreManager \<Rightarrow> Device list list \<times> IndividualCoreManager" where
  "IndividualCreateSlices mgr =
     (let (devs, idx) = deviceLoop 0 (deviceNameToCPUID mgr)
                          (concat (coreGroups (cpuTopology mgr) (reservedCPUs mgr)));
          mgr' = mgr\<lparr>deviceNameToCPUID := idx\<rparr>
      in if length devs = 0 then ([], mgr')
         else (Chunk devs maxDevicesPerResourceSlice, mgr'))"

section \<open>Resource claims and results\<close>

text \<open>
  \<open>resourceapi.ResourceClaim\<close> with what the managers read: \<open>Status.Allocation\<close> is a
  pointer (\<open>None\<close> when nil) to the allocation, whose \<open>Devices.Results\<close> are the
  allocation results. \<open>ConsumedCapacity\<close> holds, per qualified name, \<open>Value()\<close> of the
  quantity.
\<close>

record DeviceRequestAllocationResult =
  Request :: string
  Driver :: string
  Pool :: string
  Device :: string
  ConsumedCapacity :: "string \<rightharpoonup> int"

record AllocationResult =
  Results :: "DeviceRequestAllocationResult list"

record ResourceClaim =
  ClaimNamespace :: string
  ClaimName :: string
  UID :: string
  Allocation :: "AllocationResult option"

text \<open>
  The errors the package builds with \<open>fmt.Errorf\<close>, each with the device it names, and
  the errors of the collaborators (the packing primitive, the CDI manager).
\<close>

datatype error =
    DeviceNotFound string
  | NoValidSocketID string
  | NoValidNUMANodeID string
  | NoAllocation string string
  | TakeError string
  | CDIError string

text \<open>
  A Go call either returns its results or panics; a function with the results
  \<open>(cpuset.CPUSet, error)\<close> returns a pair, the error \<open>None\<close> when nil.
\<close>

datatype 'a outcome = Panic | Return 'a

type_synonym allocation = "int set \<times> error option"

section \<open>Claim resolution of the individual core manager\<close>

fun individualAllocLoop ::
  "IndividualCoreManager \<Rightarrow> int list \<Rightarrow> DeviceRequestAllocationResult list \<Rightarrow> allocation" where
  "individualAllocLoop mgr claimCPUIDs [] =
     (if length claimCPUIDs = 0 then ({}, None) else (set claimCPUIDs, None))"
| "individualAllocLoop mgr claimCPUIDs (alloc # rest) =
     (if Driver alloc \<noteq> driverName mgr then individualAllocLoop mgr claimCPUIDs rest
      else case deviceNameToCPUID mgr (Device alloc) of
             None \<Rightarrow> ({}, Some (DeviceNotFound (Device alloc)))
           | Some cpuID \<Rightarrow> individualAllocLoop mgr (claimCPUIDs @ [cpuID]) rest)"

text \<open>
  \<open>claim.Status.Allocation.Devices.Results\<close> dereferences the allocation pointer: a nil
  pointer there is a panic.
\<close>

definition IndividualAllocateCPUs ::
  "IndividualCoreManager \<Rightarrow> ResourceClaim \<Rightarrow> allocation outcome" where
  "IndividualAllocateCPUs mgr claim =
     (case Allocation claim of
        None \<Rightarrow> Panic
      | Some a \<Rightarrow> Return (individualAllocLoop mgr [] (Results a)))"

section \<open>The grouped managers\<close>

text \<open>
  \<open>getSharedCPUs\<close> is a callback into the allocation store, whose state other claims
  change: \<open>getSharedCPUs mgr k\<close> is the pool it returns at its \<open>k\<close>-th call (from 0)
  during the \<open>AllocateCPUs\<close> call that is modelled.
\<close>

record GroupedManager = Manager +
  getSharedCPUs :: "nat \<Rightarrow> int set"

record SocketGroupedManager = GroupedManager +
  deviceNameToSocketID :: "string \<rightharpoonup> int"

record NUMAGroupedManager = GroupedManager +
  deviceNameToNUMANodeID :: "string \<rightharpoonup> int"

definition NewSocketGroupedManager ::
  "string \<Rightarrow> CPUTopology \<Rightarrow> int set \<Rightarrow> (nat \<Rightarrow> int set) \<Rightarrow> SocketGroupedManager" where
  "NewSocketGroupedManager name topo resv shared =
     \<lparr>driverName = name, cpuTopology = topo, reservedCPUs = resv,
      getSharedCPUs = shared, deviceNameToSocketID = Map.empty\<rparr>"

definition NewNUMAGroupedManager ::
  "string \<Rightarrow> CPUTopology \<Rightarrow> int set \<Rightarrow> (nat \<Rightarrow> int set) \<Rightarrow> NUMAGroupedManager" where
  "NewNUMAGroupedManager name topo resv shared =
     \<lparr>driverName = name, cpuTopology = topo, reservedCPUs = resv,
      getSharedCPUs = shared, deviceNameToNUMANodeID = Map.empty\<rparr>"

definition groupedDevice ::
  "string \<Rightarrow> (string \<rightharpoonup> DeviceAttribute) \<Rightarrow> int \<Rightarrow> Device" where
  "groupedDevice deviceName attrs available =
     \<lparr>Name = deviceName, Attributes = attrs,
      Capacity = [cpuResourceQualifiedName \<mapsto> available],
      AllowMultipleAllocations = Some True\<rparr>"

text \<open>The loop of the socket manager's \<open>CreateSlices\<close> over \<open>Sockets().List()\<close>.\<close>

fun socketLoop ::
  "CPUTopology \<Rightarrow> int set \<Rightarrow> (string \<rightharpoonup> int) \<Rightarrow> int list \<Rightarrow> Device list \<times> (string \<rightharpoonup> int)" where
  "socketLoop topo resv idx [] = ([], idx)"
| "socketLoop topo resv idx (socketIDInt # ids) =
     (let deviceName = deviceNameOf cpuDeviceSocketGroupedPrefix socketIDInt;
          socketCPUSet = CPUsInSockets (CPUDetails topo) socketIDInt;
          allocatableCPUs = socketCPUSet - resv;
          availableCPUsInSocket = int (card allocatableCPUs)
      in if card allocatableCPUs = 0 then socketLoop topo resv idx ids
         else let (ds, idx') = socketLoop topo resv (idx(deviceName \<mapsto> socketIDInt)) ids
              in (groupedDevice deviceName
                    (MakeGroupedAttributes topo socketIDInt allocatableCPUs)
                    availableCPUsInSocket # ds, idx'))"

definition SocketCreateSlices ::
  "SocketGroupedManager \<Rightarrow> Device list list \<times> SocketGroupedManager" where
  "SocketCreateSlices mgr =
     (let socketIDs = cpusetList (Sockets (CPUDetails (cpuTopology mgr)));
          (devices, idx) = socketLoop (cpuTopology mgr) (reservedCPUs mgr)
                             (deviceNameToSocketID mgr) socketIDs;
          mgr' = mgr\<lparr>deviceNameToSocketID := idx\<rparr>
      in if length devices = 0 then ([], mgr') else ([devices], mgr'))"

text \<open>
  The NUMA manager reads the socket of a device from \<open>allocatableCPUs.UnsortedList()[0]\<close>.
  Modelled from the spec: \<open>UnsortedList\<close> (package cpuset, not among the sources)
  enumerates the set in an unspecified order; \<open>anyCPUOf s\<close> is the member that comes first
  on this run. The loop asks for it only when the set is not empty.
\<close>

fun numaLoop ::
  "(int set \<Rightarrow> int) \<Rightarrow> CPUTopology \<Rightarrow> int set \<Rightarrow> (string \<rightharpoonup> int) \<Rightarrow> int list
     \<Rightarrow> Device list \<times> (string \<rightharpoonup> int)" where
  "numaLoop anyCPUOf topo resv idx [] = ([], idx)"
| "numaLoop anyCPUOf topo resv idx (numaIDInt # ids) =
     (let deviceName = deviceNameOf cpuDeviceNUMAGroupedPrefix numaIDInt;
          numaNodeCPUSet = CPUsInNUMANodes (CPUDetails topo) numaIDInt;
          allocatableCPUs = numaNodeCPUSet - resv;
          availableCPUsInNUMANode = int (card allocatableCPUs)
      in if card allocatableCPUs = 0 then numaLoop anyCPUOf topo resv idx ids
         else let anyCPU = anyCPUOf allocatableCPUs;
                  socketID = SocketID (lookupCPUInfo (map_of (CPUDetails topo)) anyCPU);
                  deviceAttributes =
                    (MakeGroupedAttributes topo socketID allocatableCPUs)
                      (''dra.cpu/numaNodeID'' \<mapsto> IntValue numaIDInt,
                       ''dra.net/numaNode'' \<mapsto> IntValue numaIDInt);
                  (ds, idx') = numaLoop anyCPUOf topo resv (idx(deviceName \<mapsto> numaIDInt)) ids
              in (groupedDevice deviceName deviceAttributes availableCPUsInNUMANode # ds,
                  idx'))"

definition NUMACreateSlices ::
  "(int set \<Rightarrow> int) \<Rightarrow> NUMAGroupedManager \<Rightarrow> Device list list \<times> NUMAGroupedManager" where
  "NUMACreateSlices anyCPUOf mgr =
     (let numaNodeIDs = cpusetList (NUMANodes (CPUDetails (cpuTopology mgr)));
          (devices, idx) = numaLoop anyCPUOf (cpuTopology mgr) (reservedCPUs mgr)
                             (deviceNameToNUMANodeID mgr) numaNodeIDs;
          mgr' = mgr\<lparr>deviceNameToNUMANodeID := idx\<rparr>
      in if length devices = 0 then ([], mgr') else ([devices], mgr'))"

subsection \<open>Claim resolution of the grouped managers\<close>

text \<open>
  The packing primitive \<open>cpumanager.TakeByTopologyNUMAPacked\<close> is not among the sources:
  it is a parameter \<open>takeCPUs topo pool n\<close> of the model, called as the code calls it (the
  topology, the pool and the count; the sorting strategy and the flag are constants).
\<close>

type_synonym takeByTopology = "CPUTopology \<Rightarrow> int set \<Rightarrow> int \<Rightarrow> error + int set"

definition claimCPUCountOf :: "DeviceRequestAllocationResult \<Rightarrow> int" where
  "claimCPUCountOf alloc =
     (case ConsumedCapacity alloc cpuResourceQualifiedName of
        None \<Rightarrow> 0
      | Some quantity \<Rightarrow> quantity)"

text \<open>
  The loops carry \<open>k\<close>, the number of calls of \<open>getSharedCPUs\<close> made so far, and
  \<open>cpuAssignment\<close>.
\<close>

fun socketAllocLoop ::
  "takeByTopology \<Rightarrow> SocketGroupedManager \<Rightarrow> nat \<Rightarrow> int set
     \<Rightarrow> DeviceRequestAllocationResult list \<Rightarrow> allocation" where
  "socketAllocLoop takeCPUs mgr k cpuAssignment [] =
     (if card cpuAssignment = 0 then ({}, None) else (cpuAssignment, None))"
| "socketAllocLoop takeCPUs mgr k cpuAssignment (alloc # rest) =
     (if Driver alloc \<noteq> driverName mgr then socketAllocLoop takeCPUs mgr k cpuAssignment rest
      else case deviceNameToSocketID mgr (Device alloc) of
             None \<Rightarrow> ({}, Some (NoValidSocketID (Device alloc)))
           | Some socketID \<Rightarrow>
               (let socketCPUs = CPUsInSockets (CPUDetails (cpuTopology mgr)) socketID;
                    availableCPUsForDevice = getSharedCPUs mgr k \<inter> socketCPUs
                in case takeCPUs (cpuTopology mgr) availableCPUsForDevice (claimCPUCountOf alloc) of
                     Inl err \<Rightarrow> ({}, Some err)
                   | Inr cur \<Rightarrow>
                       socketAllocLoop takeCPUs mgr (Suc k) (cpuAssignment \<union> cur) rest))"

definition SocketAllocateCPUs ::
  "takeByTopology \<Rightarrow> SocketGroupedManager \<Rightarrow> ResourceClaim \<Rightarrow> allocation outcome" where
  "SocketAllocateCPUs takeCPUs mgr claim =
     (case Allocation claim of
        None \<Rightarrow> Panic
      | Some a \<Rightarrow> Return (socketAllocLoop takeCPUs mgr 0 {} (Results a)))"

fun numaAllocLoop ::
  "takeByTopology \<Rightarrow> NUMAGroupedManager \<Rightarrow> nat \<Rightarrow> int set
     \<Rightarrow> DeviceRequestAllocationResult list \<Rightarrow> allocation" where
  "numaAllocLoop takeCPUs mgr k cpuAssignment [] =
     (if card cpuAssignment = 0 then ({}, None) else (cpuAssignment, None))"
| "numaAllocLoop takeCPUs mgr k cpuAssignment (alloc # rest) =
     (if Driver alloc \<noteq> driverName mgr then numaAllocLoop takeCPUs mgr k cpuAssignment rest
      else case deviceNameToNUMANodeID mgr (Device alloc) of
             None \<Rightarrow> ({}, Some (NoValidNUMANodeID (Device alloc)))
           | Some numaNodeID \<Rightarrow>
               (let numaCPUs = CPUsInNUMANodes (CPUDetails (cpuTopology mgr)) numaNodeID;
                    availableCPUsForDevice = getSharedCPUs mgr k \<inter> numaCPUs
                in case takeCPUs (cpuTopology mgr) availableCPUsForDevice (claimCPUCountOf alloc) of
                     Inl err \<Rightarrow> ({}, Some err)
                   | Inr cur \<Rightarrow>
                       numaAllocLoop takeCPUs mgr (Suc k) (cpuAssignment \<union> cur) rest))"

definition NUMAAllocateCPUs ::
  "takeByTopology \<Rightarrow> NUMAGroupedManager \<Rightarrow> ResourceClaim \<Rightarrow> allocation outcome" where
  "NUMAAllocateCPUs takeCPUs mgr claim =
     (case Allocation claim of
        None \<Rightarrow> Panic
      | Some a \<Rightarrow> Return (numaAllocLoop takeCPUs mgr 0 {} (Results a)))"

section \<open>The driver's \<open>prepareResourceClaim\<close>\<close>

text \<open>
  \<open>kubeletplugin.PrepareResult\<close> and \<open>kubeletplugin.Device\<close>. The device manager's
  \<open>AllocateCPUs\<close> is the parameter \<open>allocateCPUs\<close>; the CDI manager's \<open>AddDevice\<close>, the
  environment variable's text and the qualified CDI name are parameters too (their code
  and constants are not among the sources). The allocation store only records the set and
  returns nothing.
\<close>

record PreparedDevice =
  PoolName :: string
  DeviceName :: string
  CDIDeviceIDs :: "string list"
  Requests :: "string list"

record PrepareResult =
  Devices :: "PreparedDevice list"
  Err :: "error option"

definition getCDIDeviceName :: "string \<Rightarrow> string" where
  "getCDIDeviceName uid = ''claim-'' @ uid"

definition prepareResourceClaim ::
  "(ResourceClaim \<Rightarrow> allocation outcome) \<Rightarrow> (string \<Rightarrow> string \<Rightarrow> error option)
     \<Rightarrow> (string \<Rightarrow> int set \<Rightarrow> string) \<Rightarrow> (string \<Rightarrow> string)
     \<Rightarrow> ResourceClaim \<Rightarrow> PrepareResult outcome" where
  "prepareResourceClaim allocateCPUs addDevice envVarOf qualifiedNameOf claim =
     (case Allocation claim of
        None \<Rightarrow> Return \<lparr>Devices = [], Err = Some (NoAllocation (ClaimNamespace claim) (ClaimName claim))\<rparr>
      | Some a \<Rightarrow>
          (case allocateCPUs claim of
             Panic \<Rightarrow> Panic
           | Return (claimCPUSet, Some err) \<Rightarrow> Return \<lparr>Devices = [], Err = Some err\<rparr>
           | Return (claimCPUSet, None) \<Rightarrow>
               (let deviceName = getCDIDeviceName (UID claim);
                    envVar = envVarOf (UID claim) claimCPUSet
                in case addDevice deviceName envVar of
                     Some err \<Rightarrow> Return \<lparr>Devices = [], Err = Some err\<rparr>
                   | None \<Rightarrow>
                       Return \<lparr>Devices =
                                 map (\<lambda>allocResult.
                                        \<lparr>PoolName = Pool allocResult,
                                         DeviceName = Device allocResult,
                                         CDIDeviceIDs = [qualifiedNameOf deviceName],
                                         Requests = [Request allocResult]\<rparr>)
                                     (Results a),
                               Err = None\<rparr>)))"

section \<open>Well-formed sibling data\<close>

text \<open>
  The CPUs that are not reserved, in the order the map is visited: \<open>availableCPUs\<close>
  before sorting.
\<close>

definition eligibleCPUs :: "CPUDetails \<Rightarrow> int set \<Rightarrow> CPUInfo list" where
  "eligibleCPUs d resv = filter (\<lambda>cpu. CpuID cpu \<notin> resv) (map snd d)"


text \<open>
  A weaker condition: the sibling ID of every non-reserved CPU is the sentinel, or
  reserved, or the \<open>CpuID\<close> of some CPU of the topology.
\<close>

definition siblingsInTopology :: "CPUDetails \<Rightarrow> int set \<Rightarrow> bool" where
  "siblingsInTopology d resv =
     list_all (\<lambda>c. SiblingCpuID c = - 1 \<or> SiblingCpuID c \<in> resv \<or>
                 SiblingCpuID c \<in> set (map (\<lambda>e. CpuID (snd e)) d))
       (eligibleCPUs d resv)"


section \<open>Example inputs\<close>

text \<open>
  A topology without SMT for the examples: \<open>n\<close> CPUs \<open>0, \<dots>, n - 1\<close> on one socket and
  one NUMA node, none with a sibling.
\<close>

definition flatCPU :: "int \<Rightarrow> CPUInfo" where
  "flatCPU i = \<lparr>CpuID = i, CoreID = i, SocketID = 0, NUMANodeID = 0,
     UncoreCacheID = 0, SiblingCpuID = - 1, CoreType = ''standard''\<rparr>"


text \<open>
  The topology of the examples with SMT: CPUs 0 to 3 on one socket and one NUMA node,
  with the sibling pairs 0, 2 and 1, 3.
\<close>

definition smtCPU :: "int \<Rightarrow> int \<Rightarrow> int \<Rightarrow> CPUInfo" where
  "smtCPU i core sib = \<lparr>CpuID = i, CoreID = core, SocketID = 0, NUMANodeID = 0,
     UncoreCacheID = 0, SiblingCpuID = sib, CoreType = ''standard''\<rparr>"

definition smtTopology :: CPUTopology where
  "smtTopology = \<lparr>SMTEnabled = True,
     CPUDetails = [(0, smtCPU 0 0 2), (1, smtCPU 1 1 3), (2, smtCPU 2 0 0), (3, smtCPU 3 1 1)]\<rparr>"

section \<open>Notions the claims about device names use\<close>

text \<open>The decimal digits.\<close>

definition digits :: "char set" where
  "digits = set ''0123456789''"

section \<open>Notions the claims about claim resolution use\<close>

text \<open>The claim without the allocation results of other drivers.\<close>

definition dropForeignResults :: "string \<Rightarrow> ResourceClaim \<Rightarrow> ResourceClaim" where
  "dropForeignResults name claim =
     claim\<lparr>Allocation :=
       map_option (\<lambda>a. a\<lparr>Results := filter (\<lambda>alloc. Driver alloc = name) (Results a)\<rparr>)
         (Allocation claim)\<rparr>"

text \<open>
  The number of allocation results of the driver \<open>name\<close> before position \<open>i\<close>: when
  none of them failed, the number of calls of \<open>getSharedCPUs\<close> made before the loop
  comes to position \<open>i\<close>.
\<close>

definition ownBefore :: "string \<Rightarrow> DeviceRequestAllocationResult list \<Rightarrow> nat \<Rightarrow> nat" where
  "ownBefore name rs i = length (filter (\<lambda>alloc. Driver alloc = name) (take i rs))"

text \<open>
  What lets the loop of a grouped manager fail at an allocation result of its driver:
  the device is not in the index, or the packing primitive returns an error for the pool
  that the \<open>k\<close>-th call of \<open>getSharedCPUs\<close> gives.
\<close>

definition socketResultFails ::
  "takeByTopology \<Rightarrow> SocketGroupedManager \<Rightarrow> nat \<Rightarrow> DeviceRequestAllocationResult \<Rightarrow> bool" where
  "socketResultFails takeCPUs mgr k alloc =
     (case deviceNameToSocketID mgr (Device alloc) of
        None \<Rightarrow> True
      | Some socketID \<Rightarrow>
          isl (takeCPUs (cpuTopology mgr)
                 (getSharedCPUs mgr k \<inter> CPUsInSockets (CPUDetails (cpuTopology mgr)) socketID)
                 (claimCPUCountOf alloc)))"

definition numaResultFails ::
  "takeByTopology \<Rightarrow> NUMAGroupedManager \<Rightarrow> nat \<Rightarrow> DeviceRequestAllocationResult \<Rightarrow> bool" where
  "numaResultFails takeCPUs mgr k alloc =
     (case deviceNameToNUMANodeID mgr (Device alloc) of
        None \<Rightarrow> True
      | Some numaNodeID \<Rightarrow>
          isl (takeCPUs (cpuTopology mgr)
                 (getSharedCPUs mgr k \<inter> CPUsInNUMANodes (CPUDetails (cpuTopology mgr)) numaNodeID)
                 (claimCPUCountOf alloc)))"

text \<open>
  What the loop of a grouped manager selects at an allocation result of its driver: the
  error for a device that is not in the index, or else what the packing primitive returns
  for the pool that the \<open>k\<close>-th call of \<open>getSharedCPUs\<close> gives, intersected with the
  CPUs of the device's socket or NUMA node.
\<close>

definition socketSelection ::
  "takeByTopology \<Rightarrow> SocketGroupedManager \<Rightarrow> nat \<Rightarrow> DeviceRequestAllocationResult
     \<Rightarrow> error + int set" where
  "socketSelection takeCPUs mgr k alloc =
     (case deviceNameToSocketID mgr (Device alloc) of
        None \<Rightarrow> Inl (NoValidSocketID (Device alloc))
      | Some socketID \<Rightarrow>
          takeCPUs (cpuTopology mgr)
            (getSharedCPUs mgr k \<inter> CPUsInSockets (CPUDetails (cpuTopology mgr)) socketID)
            (claimCPUCountOf alloc))"

definition numaSelection ::
  "takeByTopology \<Rightarrow> NUMAGroupedManager \<Rightarrow> nat \<Rightarrow> DeviceRequestAllocationResult
     \<Rightarrow> error + int set" where
  "numaSelection takeCPUs mgr k alloc =
     (case deviceNameToNUMANodeID mgr (Device alloc) of
        None \<Rightarrow> Inl (NoValidNUMANodeID (Device alloc))
      | Some numaNodeID \<Rightarrow>
          takeCPUs (cpuTopology mgr)
            (getSharedCPUs mgr k \<inter> CPUsInNUMANodes (CPUDetails (cpuTopology mgr)) numaNodeID)
            (claimCPUCountOf alloc))"

text \<open>
  For the examples: a packing primitive that takes the \<open>n\<close> lowest CPUs of the pool and
  fails when the pool has fewer, allocation results that consume \<open>n\<close> CPUs of a device,
  and a claim with given allocation results.
\<close>

definition takeLowest :: takeByTopology where
  "takeLowest topo pool n =
     (if n < 0 \<or> int (card pool) < n
      then Inl (TakeError ''not enough cpus available to satisfy request'')
      else Inr (set (take (nat n) (sorted_list_of_set pool))))"

definition exampleResult :: "string \<Rightarrow> string \<Rightarrow> int \<Rightarrow> DeviceRequestAllocationResult" where
  "exampleResult drv dev n =
     \<lparr>Request = ''req'', Driver = drv, Pool = ''node'', Device = dev,
      ConsumedCapacity = [cpuResourceQualifiedName \<mapsto> n]\<rparr>"

definition exampleClaim :: "DeviceRequestAllocationResult list \<Rightarrow> ResourceClaim" where
  "exampleClaim rs =
     \<lparr>ClaimNamespace = ''default'', ClaimName = ''claim'', UID = ''uid'',
      Allocation = Some \<lparr>Results = rs\<rparr>\<rparr>"

definition claimWithoutAllocation :: ResourceClaim where
  "claimWithoutAllocation =
     \<lparr>ClaimNamespace = ''default'', ClaimName = ''claim'', UID = ''uid'', Allocation = None\<rparr>"

text \<open>
  The managers of the examples, after \<open>CreateSlices\<close> on the SMT topology with nothing
  reserved; the shared pool of the grouped ones is the CPUs 0, 1 and 2 at every call.
\<close>

definition exampleIndividualManager :: IndividualCoreManager where
  "exampleIndividualManager =
     snd (IndividualCreateSlices (NewIndividualCoreManager ''dra.cpu'' smtTopology {}))"

definition exampleSocketManager :: SocketGroupedManager where
  "exampleSocketManager =
     snd (SocketCreateSlices
            (NewSocketGroupedManager ''dra.cpu'' smtTopology {} (\<lambda>k. {0, 1, 2})))"

definition exampleNUMAManager :: NUMAGroupedManager where
  "exampleNUMAManager =
     snd (NUMACreateSlices Min
            (NewNUMAGroupedManager ''dra.cpu'' smtTopology {} (\<lambda>k. {0, 1, 2})))"

text \<open>Collaborators of \<open>prepareResourceClaim\<close> for the examples.\<close>

definition exampleAddDevice :: "string \<Rightarrow> string \<Rightarrow> error option" where
  "exampleAddDevice deviceName envVar = None"

definition exampleEnvVar :: "string \<Rightarrow> int set \<Rightarrow> string" where
  "exampleEnvVar uid cpus = ''DRA_CPUSET_'' @ uid"

definition exampleQualifiedName :: "string \<Rightarrow> string" where
  "exampleQualifiedName n = ''dra.cpu/claim='' @ n"

section \<open>Notions the claims about the grouped catalogs use\<close>

text \<open>
  The coordinates (socket IDs, NUMA node IDs) that have at least one CPU that is not
  reserved, in ascending order.
\<close>

definition socketsWithAllocatableCPUs :: "CPUDetails \<Rightarrow> int set \<Rightarrow> int list" where
  "socketsWithAllocatableCPUs d resv =
     filter (\<lambda>i. CPUsInSockets d i - resv \<noteq> {}) (cpusetList (Sockets d))"

definition numaNodesWithAllocatableCPUs :: "CPUDetails \<Rightarrow> int set \<Rightarrow> int list" where
  "numaNodesWithAllocatableCPUs d resv =
     filter (\<lambda>i. CPUsInNUMANodes d i - resv \<noteq> {}) (cpusetList (NUMANodes d))"

text \<open>
  For the examples: CPUs 0 and 1 on socket 0 and NUMA node 0, CPUs 2 and 3 on socket 1
  and NUMA node 1.
\<close>

definition twoSocketTopology :: CPUTopology where
  "twoSocketTopology = \<lparr>SMTEnabled = False,
     CPUDetails = [(0, (flatCPU 0)\<lparr>SocketID := 0, NUMANodeID := 0\<rparr>),
                   (1, (flatCPU 1)\<lparr>SocketID := 0, NUMANodeID := 0\<rparr>),
                   (2, (flatCPU 2)\<lparr>SocketID := 1, NUMANodeID := 1\<rparr>),
                   (3, (flatCPU 3)\<lparr>SocketID := 1, NUMANodeID := 1\<rparr>)]\<rparr>"

text \<open>
  For the examples with a reserved CPU: the socket manager after \<open>CreateSlices\<close> on the
  SMT topology with CPU 0 reserved, once with a shared pool that holds CPU 0 and once
  with one that does not.
\<close>

definition reservedSocketManager :: SocketGroupedManager where
  "reservedSocketManager =
     snd (SocketCreateSlices
            (NewSocketGroupedManager ''dra.cpu'' smtTopology {0} (\<lambda>k. {0, 1, 2, 3})))"

definition unreservedPoolSocketManager :: SocketGroupedManager where
  "unreservedPoolSocketManager =
     snd (SocketCreateSlices
            (NewSocketGroupedManager ''dra.cpu'' smtTopology {0} (\<lambda>k. {1, 2, 3})))"

text \<open>For the examples: \<open>n\<close> CPUs, CPU \<open>i\<close> alone on socket \<open>i\<close> and NUMA node \<open>i\<close>.\<close>

definition socketPerCPUTopology :: "nat \<Rightarrow> CPUTopology" where
  "socketPerCPUTopology n = \<lparr>SMTEnabled = False,
     CPUDetails = map (\<lambda>i. (int i, (flatCPU (int i))\<lparr>SocketID := int i, NUMANodeID := int i\<rparr>)) [0..<n]\<rparr>"

section \<open>Notions the claim about determinism uses\<close>

text \<open>Every entry of the map is stored under its own \<open>CpuID\<close>.\<close>

definition keyedByCpuID :: "CPUDetails \<Rightarrow> bool" where
  "keyedByCpuID d = (distinct (map fst d) \<and> list_all (\<lambda>e. CpuID (snd e) = fst e) d)"

text \<open>
  The non-reserved CPUs of one NUMA node are all on one socket (``All CPUs in a NUMA node
  belong to the same socket'', as the NUMA manager's \<open>CreateSlices\<close> notes).
\<close>

definition numaNodesOnOneSocket :: "CPUDetails \<Rightarrow> int set \<Rightarrow> bool" where
  "numaNodesOnOneSocket d resv =
     list_all (\<lambda>e1. list_all (\<lambda>e2.
         NUMANodeID (snd e1) \<noteq> NUMANodeID (snd e2) \<or> fst e1 \<in> resv \<or> fst e2 \<in> resv \<or>
         SocketID (snd e1) = SocketID (snd e2)) d) d"

text \<open>
  For the examples: the SMT topology with its entries visited in the reverse order, and a
  topology whose NUMA node 0 holds CPU 0 of socket 0 and CPU 1 of socket 1.
\<close>

definition smtTopologyReversed :: CPUTopology where
  "smtTopologyReversed = \<lparr>SMTEnabled = True, CPUDetails = rev (CPUDetails smtTopology)\<rparr>"

definition splitNUMATopology :: CPUTopology where
  "splitNUMATopology = \<lparr>SMTEnabled = False,
     CPUDetails = [(0, (flatCPU 0)\<lparr>SocketID := 0\<rparr>), (1, (flatCPU 1)\<lparr>SocketID := 1\<rparr>)]\<rparr>"

section \<open>Examples of sibling data that is not well-formed\<close>

text \<open>
  CPU 1 names the sibling 5, which is not a CPU of the topology; three threads of one
  core, where the CPUs 1 and 2 both name CPU 0; a CPU that names itself; and a CPU with
  the ID \<open>-1\<close>, which its sibling's \<open>SiblingCpuID\<close> then names.
\<close>

definition orphanSiblingTopology :: CPUTopology where
  "orphanSiblingTopology = \<lparr>SMTEnabled = True,
     CPUDetails = [(0, flatCPU 0), (1, smtCPU 1 1 5)]\<rparr>"





section \<open>Chunking\<close>

lemma Chunk_Nil [simp]: "Chunk [] n = []"
  by (simp add: Chunk.simps)

lemma concat_Chunk: "0 < n \<Longrightarrow> concat (Chunk s n) = s"
proof (induction s n rule: Chunk.induct)
  case (1 s n)
  show ?case
  proof (cases "s = []")
    case True
    then show ?thesis by simp
  next
    case False
    with 1 have "concat (Chunk (drop n s) n) = drop n s" by simp
    with False 1(2) show ?thesis
      by (subst Chunk.simps) simp
  qed
qed



lemma deviceLoop_names:
  "map Name (fst (deviceLoop devId idx cpus)) =
     map (\<lambda>i. deviceNameOf cpuDevicePrefix (devId + int i)) [0..<length cpus]"
proof (induction cpus arbitrary: devId idx)
  case Nil
  then show ?case by simp
next
  case (Cons cpu cpus)
  have "map (\<lambda>i. deviceNameOf cpuDevicePrefix (devId + int i)) [0..<length (cpu # cpus)]
      = deviceNameOf cpuDevicePrefix devId #
          map (\<lambda>i. deviceNameOf cpuDevicePrefix (devId + 1 + int i)) [0..<length cpus]"
    by (simp add: upt_conv_Cons map_Suc_upt[symmetric] ac_simps del: upt_Suc)
  with Cons[of "devId + 1"] show ?case
    by (simp add: split_beta Let_def individualDevice_def)
qed

lemma length_deviceLoop: "length (fst (deviceLoop devId idx cpus)) = length cpus"
  by (induction cpus arbitrary: devId idx) (simp_all add: split_beta Let_def)

section \<open>The grouping of the individual manager\<close>

lemma fold_cpuInfoMap:
  "fold (\<lambda>info m. m(CpuID info \<mapsto> info)) cpus m0 =
     m0 ++ map_of (rev (map (\<lambda>c. (CpuID c, c)) cpus))"
  by (induction cpus arbitrary: m0) (simp_all add: map_add_upd_left fun_upd_def[symmetric] map_add_def  fun_eq_iff split: option.splits)

lemma cpuInfoMap_distinct:
  assumes "distinct (map CpuID cpus)"
  shows "cpuInfoMap cpus k = Some c \<longleftrightarrow> c \<in> set cpus \<and> CpuID c = k"
proof -
  have d: "distinct (map fst (rev (map (\<lambda>c. (CpuID c, c)) cpus)))"
    using assms by (simp add: rev_map[symmetric] comp_def)
  have "cpuInfoMap cpus k = map_of (rev (map (\<lambda>c. (CpuID c, c)) cpus)) k"
    by (simp add: cpuInfoMap_def fold_cpuInfoMap)
  then have "cpuInfoMap cpus k = Some c \<longleftrightarrow>
      (k, c) \<in> set (rev (map (\<lambda>c. (CpuID c, c)) cpus))"
    by (simp only: map_of_eq_Some_iff[OF d])
  then show ?thesis by auto
qed

lemma groupLoop_heads:
  "g \<in> set (groupLoop resv m P rest) \<Longrightarrow> g \<noteq> [] \<and> hd g \<in> set rest \<and> CpuID (hd g) \<notin> P"
  by (induction resv m P rest rule: groupLoop.induct) (auto split: if_splits)

lemma groupLoop_sorted:
  "sorted (map CpuID rest) \<Longrightarrow>
     sorted_wrt (<) (map (\<lambda>g. CpuID (hd g)) (groupLoop resv m P rest))"
proof (induction resv m P rest rule: groupLoop.induct)
  case (1 resv m P)
  then show ?case by simp
next
  case (2 resv m P cpu rest)
  from 2(4) have srt: "sorted (map CpuID rest)" and low: "\<forall>c\<in>set rest. CpuID cpu \<le> CpuID c"
    by simp_all
  have lt: "CpuID cpu < CpuID (hd g)"
    if "g \<in> set (groupLoop resv m P' rest)" and "CpuID cpu \<in> P'" for g P'
  proof -
    from groupLoop_heads[OF that(1)] have "hd g \<in> set rest" "CpuID (hd g) \<notin> P'" by simp_all
    with low that(2) have "CpuID cpu \<le> CpuID (hd g)" "CpuID cpu \<noteq> CpuID (hd g)" by auto
    then show ?thesis by simp
  qed
  show ?case
  proof (cases "CpuID cpu \<in> P")
    case True
    with 2(1) srt show ?thesis by simp
  next
    case False
    note nP = this
    show ?thesis
    proof (cases "SiblingCpuID cpu = - 1 \<or> SiblingCpuID cpu \<in> resv")
      case True
      with 2(2) nP srt
      have "sorted_wrt (<) (map (\<lambda>g. CpuID (hd g))
              (groupLoop resv m (insert (CpuID cpu) P) rest))" by simp
      with True nP lt[of _ "insert (CpuID cpu) P"] show ?thesis by auto
    next
      case F: False
      with 2(3) nP srt
      have "sorted_wrt (<) (map (\<lambda>g. CpuID (hd g))
              (groupLoop resv m (insert (SiblingCpuID cpu) (insert (CpuID cpu) P)) rest))"
        by simp
      with F nP lt[of _ "insert (SiblingCpuID cpu) (insert (CpuID cpu) P)"] show ?thesis
        by auto
    qed
  qed
qed

lemma coreGroups_eq:
  "coreGroups topo resv =
     groupLoop resv (cpuInfoMap (allCPUs topo)) {} (availableCPUs topo resv)"
proof -
  have "sorted (map CpuID (availableCPUs topo resv))"
    by (simp add: availableCPUs_def)
  then have "sorted_wrt (<) (map (\<lambda>g. CpuID (hd g))
      (groupLoop resv (cpuInfoMap (allCPUs topo)) {} (availableCPUs topo resv)))"
    by (rule groupLoop_sorted)
  then have "sorted (map (\<lambda>g. CpuID (hd g))
      (groupLoop resv (cpuInfoMap (allCPUs topo)) {} (availableCPUs topo resv)))"
    by (rule strict_sorted_imp_sorted)
  then show ?thesis
    unfolding coreGroups_def by (rule sort_key_id_if_sorted)
qed











lemma cpuInfoMap_Some:
  assumes "cpuInfoMap cpus k = Some x"
  shows "x \<in> set cpus" and "CpuID x = k"
proof -
  from assms have "map_of (rev (map (\<lambda>c. (CpuID c, c)) cpus)) k = Some x"
    by (simp add: cpuInfoMap_def fold_cpuInfoMap)
  then have "(k, x) \<in> set (rev (map (\<lambda>c. (CpuID c, c)) cpus))"
    by (rule map_of_SomeD)
  then show "x \<in> set cpus" and "CpuID x = k" by auto
qed

lemma cpuInfoMap_present:
  assumes "c \<in> set cpus"
  shows "\<exists>x. cpuInfoMap cpus (CpuID c) = Some x"
proof -
  from assms have "CpuID c \<in> fst ` set (rev (map (\<lambda>c. (CpuID c, c)) cpus))"
    by (auto simp: image_iff)
  then have "map_of (rev (map (\<lambda>c. (CpuID c, c)) cpus)) (CpuID c) \<noteq> None"
    by (simp only: map_of_eq_None_iff not_not)
  then show ?thesis
    by (auto simp: cpuInfoMap_def fold_cpuInfoMap)
qed

lemma availableCPUs_eligible:
  "availableCPUs topo resv = sort_key CpuID (eligibleCPUs (CPUDetails topo) resv)"
  by (simp add: availableCPUs_def eligibleCPUs_def allCPUs_def)




lemma IndividualCreateSlices_fst:
  "fst (IndividualCreateSlices mgr) = Chunk (allDevices mgr) maxDevicesPerResourceSlice"
  by (simp add: IndividualCreateSlices_def allDevices_def split_beta Let_def)



section \<open>Device names\<close>

lemma digitChar_digits: "digitChar d \<in> digits"
proof -
  define k where "k = d mod 10"
  then have "k < 10" by simp
  then have "k = 0 \<or> k = 1 \<or> k = 2 \<or> k = 3 \<or> k = 4 \<or> k = 5 \<or> k = 6 \<or> k = 7 \<or> k = 8 \<or> k = 9"
    by arith
  then have "''0123456789'' ! k \<in> digits"
    unfolding digits_def by (elim disjE) simp_all
  then show ?thesis
    by (simp add: digitChar_def k_def)
qed

lemma fmtDecimal_digits: "fmtDecimal n \<noteq> [] \<and> set (fmtDecimal n) \<subseteq> digits"
proof (induction n rule: fmtDecimal.induct)
  case (1 n)
  show ?case
  proof (cases "n < 10")
    case True
    then show ?thesis by (subst (1 2) fmtDecimal.simps) (simp add: digitChar_digits)
  next
    case False
    with 1 show ?thesis by (subst (1 2) fmtDecimal.simps) (simp add: digitChar_digits)
  qed
qed

lemma padZero_digits:
  "s \<noteq> [] \<Longrightarrow> set s \<subseteq> digits \<Longrightarrow> padZero w s \<noteq> [] \<and> set (padZero w s) \<subseteq> digits"
  by (auto simp: padZero_def digits_def)

lemma fmt03d_nonneg: "0 \<le> n \<Longrightarrow> fmt03d n \<noteq> [] \<and> set (fmt03d n) \<subseteq> digits"
  using padZero_digits[of "fmtDecimal (nat n)" 3] fmtDecimal_digits[of "nat n"]
  by (simp add: fmt03d_def)

lemma individual_name_shape:
  assumes "0 \<le> n"
  shows "take 6 (deviceNameOf cpuDevicePrefix n) = cpuDevicePrefix"
    and "drop 6 (deviceNameOf cpuDevicePrefix n) \<noteq> []"
    and "set (drop 6 (deviceNameOf cpuDevicePrefix n)) \<subseteq> digits"
    and "deviceNameOf cpuDevicePrefix n ! 6 \<in> digits"
proof -
  have d: "drop 6 (deviceNameOf cpuDevicePrefix n) = fmt03d n"
    by (simp add: deviceNameOf_def cpuDevicePrefix_def)
  show "take 6 (deviceNameOf cpuDevicePrefix n) = cpuDevicePrefix"
    by (simp add: deviceNameOf_def cpuDevicePrefix_def)
  from fmt03d_nonneg[OF assms] d
  show "drop 6 (deviceNameOf cpuDevicePrefix n) \<noteq> []"
    and s: "set (drop 6 (deviceNameOf cpuDevicePrefix n)) \<subseteq> digits" by simp_all
  have "deviceNameOf cpuDevicePrefix n ! 6 = fmt03d n ! 0"
    by (simp add: deviceNameOf_def cpuDevicePrefix_def nth_append)
  moreover from fmt03d_nonneg[OF assms] have "fmt03d n ! 0 \<in> digits"
    by (cases "fmt03d n") auto
  ultimately show "deviceNameOf cpuDevicePrefix n ! 6 \<in> digits" by simp
qed

lemma socket_name_shape:
  "take 12 (deviceNameOf cpuDeviceSocketGroupedPrefix n) = cpuDeviceSocketGroupedPrefix"
  "deviceNameOf cpuDeviceSocketGroupedPrefix n ! 6 = CHR ''s''"
  by (simp_all add: deviceNameOf_def cpuDeviceSocketGroupedPrefix_def nth_append)

lemma numa_name_shape:
  "take 10 (deviceNameOf cpuDeviceNUMAGroupedPrefix n) = cpuDeviceNUMAGroupedPrefix"
  "deviceNameOf cpuDeviceNUMAGroupedPrefix n ! 6 = CHR ''n''"
  by (simp_all add: deviceNameOf_def cpuDeviceNUMAGroupedPrefix_def nth_append)

lemma socketLoop_names:
  "set (map Name (fst (socketLoop topo resv idx ids)))
     \<subseteq> deviceNameOf cpuDeviceSocketGroupedPrefix ` set ids"
  by (induction ids arbitrary: idx) (auto simp: Let_def split_beta groupedDevice_def)

lemma numaLoop_names:
  "set (map Name (fst (numaLoop anyCPUOf topo resv idx ids)))
     \<subseteq> deviceNameOf cpuDeviceNUMAGroupedPrefix ` set ids"
  by (induction ids arbitrary: idx) (auto simp: Let_def split_beta groupedDevice_def)

lemma SocketCreateSlices_concat:
  "concat (fst (SocketCreateSlices mgr)) =
     fst (socketLoop (cpuTopology mgr) (reservedCPUs mgr) (deviceNameToSocketID mgr)
            (cpusetList (Sockets (CPUDetails (cpuTopology mgr)))))"
  by (simp add: SocketCreateSlices_def Let_def split_beta)

lemma NUMACreateSlices_concat:
  "concat (fst (NUMACreateSlices anyCPUOf mgr)) =
     fst (numaLoop anyCPUOf (cpuTopology mgr) (reservedCPUs mgr) (deviceNameToNUMANodeID mgr)
            (cpusetList (NUMANodes (CPUDetails (cpuTopology mgr)))))"
  by (simp add: NUMACreateSlices_def Let_def split_beta)

lemma IndividualCreateSlices_concat:
  "concat (fst (IndividualCreateSlices mgr)) = allDevices mgr"
  unfolding IndividualCreateSlices_fst maxDevicesPerResourceSlice_def
  by (rule concat_Chunk) simp

lemma allDevices_names:
  "map Name (allDevices mgr) =
     map (\<lambda>i. deviceNameOf cpuDevicePrefix (int i)) [0..<length (allDevices mgr)]"
  by (simp add: allDevices_def deviceLoop_names length_deviceLoop)

lemma individual_names:
  assumes "n \<in> set (map Name (concat (fst (IndividualCreateSlices mgr))))"
  shows "\<exists>i::nat. n = deviceNameOf cpuDevicePrefix (int i)"
proof -
  from assms have "n \<in> set (map Name (allDevices mgr))"
    by (simp only: IndividualCreateSlices_concat)
  then have "n \<in> set (map (\<lambda>i. deviceNameOf cpuDevicePrefix (int i)) [0..<length (allDevices mgr)])"
    by (simp only: allDevices_names[symmetric])
  then show ?thesis by auto
qed

section \<open>Claims about the individual manager's catalog\<close>






section \<open>Claims about device names\<close>

text \<open>
  C8. For any three managers (whatever their topologies and reserved sets), the device
  names of the three catalogs are pairwise disjoint: an individual name is \<open>cpudev\<close>
  followed by decimal digits only (at least one), a socket name starts with
  \<open>cpudevsocket\<close> and a NUMA name with \<open>cpudevnuma\<close>.
\<close>

theorem device_names_disjoint:
  "(\<forall>n\<in>set (map Name (concat (fst (IndividualCreateSlices imgr)))).
      take 6 n = cpuDevicePrefix \<and> drop 6 n \<noteq> [] \<and> set (drop 6 n) \<subseteq> set ''0123456789'') \<and>
   (\<forall>n\<in>set (map Name (concat (fst (SocketCreateSlices smgr)))).
      take 12 n = cpuDeviceSocketGroupedPrefix) \<and>
   (\<forall>n\<in>set (map Name (concat (fst (NUMACreateSlices anyCPUOf nmgr)))).
      take 10 n = cpuDeviceNUMAGroupedPrefix) \<and>
   set (map Name (concat (fst (IndividualCreateSlices imgr)))) \<inter>
     set (map Name (concat (fst (SocketCreateSlices smgr)))) = {} \<and>
   set (map Name (concat (fst (IndividualCreateSlices imgr)))) \<inter>
     set (map Name (concat (fst (NUMACreateSlices anyCPUOf nmgr)))) = {} \<and>
   set (map Name (concat (fst (SocketCreateSlices smgr)))) \<inter>
     set (map Name (concat (fst (NUMACreateSlices anyCPUOf nmgr)))) = {}"
proof -
  let ?I = "set (map Name (concat (fst (IndividualCreateSlices imgr))))"
  let ?S = "set (map Name (concat (fst (SocketCreateSlices smgr))))"
  let ?N = "set (map Name (concat (fst (NUMACreateSlices anyCPUOf nmgr))))"
  have I: "take 6 n = cpuDevicePrefix \<and> drop 6 n \<noteq> [] \<and> set (drop 6 n) \<subseteq> digits \<and> n ! 6 \<in> digits"
    if "n \<in> ?I" for n
  proof -
    from individual_names[OF that] obtain i :: nat where "n = deviceNameOf cpuDevicePrefix (int i)"
      by blast
    then show ?thesis using individual_name_shape[of "int i"] by simp
  qed
  have S: "take 12 n = cpuDeviceSocketGroupedPrefix \<and> n ! 6 = CHR ''s''" if "n \<in> ?S" for n
  proof -
    from that socketLoop_names obtain i where "n = deviceNameOf cpuDeviceSocketGroupedPrefix i"
      unfolding SocketCreateSlices_concat by blast
    then show ?thesis by (simp add: socket_name_shape)
  qed
  have N: "take 10 n = cpuDeviceNUMAGroupedPrefix \<and> n ! 6 = CHR ''n''" if "n \<in> ?N" for n
  proof -
    from that numaLoop_names obtain i where "n = deviceNameOf cpuDeviceNUMAGroupedPrefix i"
      unfolding NUMACreateSlices_concat by blast
    then show ?thesis by (simp add: numa_name_shape)
  qed
  have ds: "CHR ''s'' \<notin> digits" and dn: "CHR ''n'' \<notin> digits"
    by (simp_all add: digits_def)
  have p1: "\<forall>n\<in>?I. take 6 n = cpuDevicePrefix \<and> drop 6 n \<noteq> [] \<and>
              set (drop 6 n) \<subseteq> set ''0123456789''"
    using I unfolding digits_def by blast
  have p2: "\<forall>n\<in>?S. take 12 n = cpuDeviceSocketGroupedPrefix" using S by blast
  have p3: "\<forall>n\<in>?N. take 10 n = cpuDeviceNUMAGroupedPrefix" using N by blast
  have p4: "?I \<inter> ?S = {}"
  proof (rule ccontr)
    assume "?I \<inter> ?S \<noteq> {}"
    then obtain n where "n \<in> ?I" "n \<in> ?S" by blast
    with I[of n] S[of n] ds show False by simp
  qed
  have p5: "?I \<inter> ?N = {}"
  proof (rule ccontr)
    assume "?I \<inter> ?N \<noteq> {}"
    then obtain n where "n \<in> ?I" "n \<in> ?N" by blast
    with I[of n] N[of n] dn show False by simp
  qed
  have p6: "?S \<inter> ?N = {}"
  proof (rule ccontr)
    assume "?S \<inter> ?N \<noteq> {}"
    then obtain n where "n \<in> ?S" "n \<in> ?N" by blast
    with S[of n] N[of n] show False by simp
  qed
  show ?thesis
    by (intro conjI) (rule p1, rule p2, rule p3, rule p4, rule p5, rule p6)
qed

theorem device_names_disjoint_witness:
  "map Name (concat (fst (IndividualCreateSlices
      (NewIndividualCoreManager ''dra.cpu'' smtTopology {})))) =
     [''cpudev000'', ''cpudev001'', ''cpudev002'', ''cpudev003''] \<and>
   map Name (concat (fst (SocketCreateSlices
      (NewSocketGroupedManager ''dra.cpu'' smtTopology {} (\<lambda>k. {}))))) = [''cpudevsocket000''] \<and>
   map Name (concat (fst (NUMACreateSlices Min
      (NewNUMAGroupedManager ''dra.cpu'' smtTopology {} (\<lambda>k. {}))))) = [''cpudevnuma000''] \<and>
   set (map Name (concat (fst (IndividualCreateSlices
      (NewIndividualCoreManager ''dra.cpu'' smtTopology {}))))) \<inter>
     set (map Name (concat (fst (SocketCreateSlices
      (NewSocketGroupedManager ''dra.cpu'' smtTopology {} (\<lambda>k. {})))))) = {} \<and>
   set (map Name (concat (fst (IndividualCreateSlices
      (NewIndividualCoreManager ''dra.cpu'' smtTopology {}))))) \<inter>
     set (map Name (concat (fst (NUMACreateSlices Min
      (NewNUMAGroupedManager ''dra.cpu'' smtTopology {} (\<lambda>k. {})))))) = {} \<and>
   set (map Name (concat (fst (SocketCreateSlices
      (NewSocketGroupedManager ''dra.cpu'' smtTopology {} (\<lambda>k. {})))))) \<inter>
     set (map Name (concat (fst (NUMACreateSlices Min
      (NewNUMAGroupedManager ''dra.cpu'' smtTopology {} (\<lambda>k. {})))))) = {}"
proof -
  have e1: "map Name (concat (fst (IndividualCreateSlices
      (NewIndividualCoreManager ''dra.cpu'' smtTopology {})))) =
     [''cpudev000'', ''cpudev001'', ''cpudev002'', ''cpudev003'']"
    by code_simp
  have e2: "map Name (concat (fst (SocketCreateSlices
      (NewSocketGroupedManager ''dra.cpu'' smtTopology {} (\<lambda>k. {}))))) = [''cpudevsocket000'']"
    by code_simp
  have e3: "map Name (concat (fst (NUMACreateSlices Min
      (NewNUMAGroupedManager ''dra.cpu'' smtTopology {} (\<lambda>k. {}))))) = [''cpudevnuma000'']"
    by code_simp
  note d = device_names_disjoint
    [of "NewIndividualCoreManager ''dra.cpu'' smtTopology {}"
        "NewSocketGroupedManager ''dra.cpu'' smtTopology {} (\<lambda>k. {})"
        Min "NewNUMAGroupedManager ''dra.cpu'' smtTopology {} (\<lambda>k. {})"]
  note r = d [THEN conjunct2, THEN conjunct2, THEN conjunct2]
  show ?thesis
    by (intro conjI) (rule e1, rule e2, rule e3, rule r [THEN conjunct1],
      rule r [THEN conjunct2, THEN conjunct1], rule r [THEN conjunct2, THEN conjunct2])
qed

section \<open>Claim resolution\<close>

lemma individualAllocLoop_filter:
  "individualAllocLoop mgr acc (filter (\<lambda>alloc. Driver alloc = driverName mgr) rs) =
   individualAllocLoop mgr acc rs"
  by (induction rs arbitrary: acc) (simp_all split: option.splits)

lemma socketAllocLoop_filter:
  "socketAllocLoop takeCPUs mgr k acc (filter (\<lambda>alloc. Driver alloc = driverName mgr) rs) =
   socketAllocLoop takeCPUs mgr k acc rs"
  by (induction rs arbitrary: k acc) (simp_all add: Let_def split: option.splits sum.splits)

lemma numaAllocLoop_filter:
  "numaAllocLoop takeCPUs mgr k acc (filter (\<lambda>alloc. Driver alloc = driverName mgr) rs) =
   numaAllocLoop takeCPUs mgr k acc rs"
  by (induction rs arbitrary: k acc) (simp_all add: Let_def split: option.splits sum.splits)

lemma individualAllocLoop_foreign:
  "\<forall>alloc\<in>set rs. Driver alloc \<noteq> driverName mgr \<Longrightarrow>
     individualAllocLoop mgr [] rs = ({}, None)"
  by (induction rs) simp_all

lemma socketAllocLoop_foreign:
  "\<forall>alloc\<in>set rs. Driver alloc \<noteq> driverName mgr \<Longrightarrow>
     socketAllocLoop takeCPUs mgr k {} rs = ({}, None)"
  by (induction rs) simp_all

lemma numaAllocLoop_foreign:
  "\<forall>alloc\<in>set rs. Driver alloc \<noteq> driverName mgr \<Longrightarrow>
     numaAllocLoop takeCPUs mgr k {} rs = ({}, None)"
  by (induction rs) simp_all

lemma individualAllocLoop_error_empty:
  "individualAllocLoop mgr acc rs = (s, Some e) \<Longrightarrow> s = {}"
  by (induction rs arbitrary: acc) (auto split: if_splits option.splits)

lemma socketAllocLoop_error_empty:
  "socketAllocLoop takeCPUs mgr k acc rs = (s, Some e) \<Longrightarrow> s = {}"
  by (induction rs arbitrary: k acc) (auto simp: Let_def split: if_splits option.splits sum.splits)

lemma numaAllocLoop_error_empty:
  "numaAllocLoop takeCPUs mgr k acc rs = (s, Some e) \<Longrightarrow> s = {}"
  by (induction rs arbitrary: k acc) (auto simp: Let_def split: if_splits option.splits sum.splits)

lemma individualAllocLoop_unknown:
  "alloc \<in> set rs \<Longrightarrow> Driver alloc = driverName mgr \<Longrightarrow>
   deviceNameToCPUID mgr (Device alloc) = None \<Longrightarrow>
     \<exists>e. individualAllocLoop mgr acc rs = ({}, Some e)"
  by (induction rs arbitrary: acc) (auto split: option.splits)

lemma ownBefore_Suc:
  "ownBefore name (r # rs) (Suc i) = (if Driver r = name then Suc (ownBefore name rs i) else ownBefore name rs i)"
  by (simp add: ownBefore_def)

lemma socketAllocLoop_fails:
  "i < length rs \<Longrightarrow> Driver (rs ! i) = driverName mgr \<Longrightarrow>
   socketResultFails takeCPUs mgr (k + ownBefore (driverName mgr) rs i) (rs ! i) \<Longrightarrow>
     \<exists>e. socketAllocLoop takeCPUs mgr k acc rs = ({}, Some e)"
proof (induction rs arbitrary: i k acc)
  case Nil
  then show ?case by simp
next
  case (Cons r rs)
  show ?case
  proof (cases i)
    case 0
    with Cons.prems show ?thesis
      by (auto simp: socketResultFails_def ownBefore_def Let_def split: option.splits sum.splits)
  next
    case (Suc j)
    with Cons.prems have j: "j < length rs" "Driver (rs ! j) = driverName mgr" by simp_all
    show ?thesis
    proof (cases "Driver r = driverName mgr")
      case False
      with Cons.prems Suc have "socketResultFails takeCPUs mgr (k + ownBefore (driverName mgr) rs j) (rs ! j)"
        by (simp add: ownBefore_Suc)
      from Cons.IH[OF j this] False show ?thesis by simp
    next
      case True
      with Cons.prems Suc have "socketResultFails takeCPUs mgr (Suc k + ownBefore (driverName mgr) rs j) (rs ! j)"
        by (simp add: ownBefore_Suc)
      from Cons.IH[OF j this] True show ?thesis
        by (simp add: Let_def split: option.splits sum.splits)
    qed
  qed
qed

lemma numaAllocLoop_fails:
  "i < length rs \<Longrightarrow> Driver (rs ! i) = driverName mgr \<Longrightarrow>
   numaResultFails takeCPUs mgr (k + ownBefore (driverName mgr) rs i) (rs ! i) \<Longrightarrow>
     \<exists>e. numaAllocLoop takeCPUs mgr k acc rs = ({}, Some e)"
proof (induction rs arbitrary: i k acc)
  case Nil
  then show ?case by simp
next
  case (Cons r rs)
  show ?case
  proof (cases i)
    case 0
    with Cons.prems show ?thesis
      by (auto simp: numaResultFails_def ownBefore_def Let_def split: option.splits sum.splits)
  next
    case (Suc j)
    with Cons.prems have j: "j < length rs" "Driver (rs ! j) = driverName mgr" by simp_all
    show ?thesis
    proof (cases "Driver r = driverName mgr")
      case False
      with Cons.prems Suc have "numaResultFails takeCPUs mgr (k + ownBefore (driverName mgr) rs j) (rs ! j)"
        by (simp add: ownBefore_Suc)
      from Cons.IH[OF j this] False show ?thesis by simp
    next
      case True
      with Cons.prems Suc have "numaResultFails takeCPUs mgr (Suc k + ownBefore (driverName mgr) rs j) (rs ! j)"
        by (simp add: ownBefore_Suc)
      from Cons.IH[OF j this] True show ?thesis
        by (simp add: Let_def split: option.splits sum.splits)
    qed
  qed
qed

section \<open>Claims about claim resolution\<close>

lemma individualAllocLoop_resolved:
  "individualAllocLoop mgr acc rs = (s, None) \<Longrightarrow>
     s = set acc \<union> {c. \<exists>alloc\<in>set rs. Driver alloc = driverName mgr \<and>
                      deviceNameToCPUID mgr (Device alloc) = Some c}"
proof (induction rs arbitrary: acc)
  case Nil
  then show ?case by (auto split: if_splits)
next
  case (Cons r rs)
  show ?case
  proof (cases "Driver r = driverName mgr")
    case False
    with Cons.prems have "individualAllocLoop mgr acc rs = (s, None)" by simp
    from Cons.IH[OF this] False show ?thesis by auto
  next
    case True
    show ?thesis
    proof (cases "deviceNameToCPUID mgr (Device r)")
      case None
      with True Cons.prems show ?thesis by simp
    next
      case (Some c)
      with True Cons.prems have "individualAllocLoop mgr (acc @ [c]) rs = (s, None)" by simp
      from Cons.IH[OF this] True Some show ?thesis by auto
    qed
  qed
qed

lemma ex_less_Cons:
  "(\<exists>i<length (r # rs). Q i) \<longleftrightarrow> Q 0 \<or> (\<exists>j<length rs. Q (Suc j))"
proof
  assume "\<exists>i<length (r # rs). Q i"
  then obtain i where i: "i < length (r # rs)" "Q i" by blast
  show "Q 0 \<or> (\<exists>j<length rs. Q (Suc j))"
  proof (cases i)
    case 0
    with i show ?thesis by simp
  next
    case (Suc j)
    with i have "j < length rs" "Q (Suc j)" by simp_all
    then show ?thesis by blast
  qed
next
  assume "Q 0 \<or> (\<exists>j<length rs. Q (Suc j))"
  then show "\<exists>i<length (r # rs). Q i"
  proof
    assume "Q 0"
    then show ?thesis by auto
  next
    assume "\<exists>j<length rs. Q (Suc j)"
    then obtain j where "j < length rs" "Q (Suc j)" by blast
    then have "Suc j < length (r # rs)" "Q (Suc j)" by simp_all
    then show ?thesis by blast
  qed
qed

lemma ownBefore_0: "ownBefore name rs 0 = 0"
  by (simp add: ownBefore_def)

lemma socketAllocLoop_resolved:
  assumes fin: "\<forall>topo pool n cur. takeCPUs topo pool n = Inr cur \<longrightarrow> finite cur"
  shows "finite acc \<Longrightarrow> socketAllocLoop takeCPUs mgr k acc rs = (s, None) \<Longrightarrow>
     s = acc \<union> \<Union>{cur. \<exists>i<length rs. Driver (rs ! i) = driverName mgr \<and>
            socketSelection takeCPUs mgr (k + ownBefore (driverName mgr) rs i) (rs ! i) = Inr cur}"
proof (induction rs arbitrary: k acc)
  case Nil
  then show ?case by (auto split: if_splits)
next
  case (Cons r rs)
  let ?U = "\<lambda>k rs. \<Union>{cur. \<exists>i<length rs. Driver (rs ! i) = driverName mgr \<and>
            socketSelection takeCPUs mgr (k + ownBefore (driverName mgr) rs i) (rs ! i) = Inr cur}"
  show ?case
  proof (cases "Driver r = driverName mgr")
    case False
    with Cons.prems have "socketAllocLoop takeCPUs mgr k acc rs = (s, None)" by simp
    from Cons.IH[OF Cons.prems(1) this] have "s = acc \<union> ?U k rs" .
    moreover from False have "?U k (r # rs) = ?U k rs"
      by (simp only: ex_less_Cons nth_Cons_0 nth_Cons_Suc ownBefore_Suc) simp
    ultimately show ?thesis by (simp only:)
  next
    case True
    show ?thesis
    proof (cases "socketSelection takeCPUs mgr k r")
      case (Inl err)
      with True Cons.prems(2) show ?thesis
        by (simp add: socketSelection_def Let_def split: option.splits sum.splits)
    next
      case (Inr cur)
      with True Cons.prems(2)
      have l: "socketAllocLoop takeCPUs mgr (Suc k) (acc \<union> cur) rs = (s, None)"
        by (simp add: socketSelection_def Let_def split: option.splits sum.splits)
      from Inr fin have "finite cur"
        by (auto simp: socketSelection_def split: option.splits)
      with Cons.prems(1) have "finite (acc \<union> cur)" by simp
      from Cons.IH[OF this l] have "s = acc \<union> cur \<union> ?U (Suc k) rs" .
      moreover from True Inr have "?U k (r # rs) = cur \<union> ?U (Suc k) rs"
        by (simp only: ex_less_Cons nth_Cons_0 nth_Cons_Suc ownBefore_Suc ownBefore_0) auto
      ultimately show ?thesis by (simp only: Un_assoc)
    qed
  qed
qed

lemma numaAllocLoop_resolved:
  assumes fin: "\<forall>topo pool n cur. takeCPUs topo pool n = Inr cur \<longrightarrow> finite cur"
  shows "finite acc \<Longrightarrow> numaAllocLoop takeCPUs mgr k acc rs = (s, None) \<Longrightarrow>
     s = acc \<union> \<Union>{cur. \<exists>i<length rs. Driver (rs ! i) = driverName mgr \<and>
            numaSelection takeCPUs mgr (k + ownBefore (driverName mgr) rs i) (rs ! i) = Inr cur}"
proof (induction rs arbitrary: k acc)
  case Nil
  then show ?case by (auto split: if_splits)
next
  case (Cons r rs)
  let ?U = "\<lambda>k rs. \<Union>{cur. \<exists>i<length rs. Driver (rs ! i) = driverName mgr \<and>
            numaSelection takeCPUs mgr (k + ownBefore (driverName mgr) rs i) (rs ! i) = Inr cur}"
  show ?case
  proof (cases "Driver r = driverName mgr")
    case False
    with Cons.prems have "numaAllocLoop takeCPUs mgr k acc rs = (s, None)" by simp
    from Cons.IH[OF Cons.prems(1) this] have "s = acc \<union> ?U k rs" .
    moreover from False have "?U k (r # rs) = ?U k rs"
      by (simp only: ex_less_Cons nth_Cons_0 nth_Cons_Suc ownBefore_Suc) simp
    ultimately show ?thesis by (simp only:)
  next
    case True
    show ?thesis
    proof (cases "numaSelection takeCPUs mgr k r")
      case (Inl err)
      with True Cons.prems(2) show ?thesis
        by (simp add: numaSelection_def Let_def split: option.splits sum.splits)
    next
      case (Inr cur)
      with True Cons.prems(2)
      have l: "numaAllocLoop takeCPUs mgr (Suc k) (acc \<union> cur) rs = (s, None)"
        by (simp add: numaSelection_def Let_def split: option.splits sum.splits)
      from Inr fin have "finite cur"
        by (auto simp: numaSelection_def split: option.splits)
      with Cons.prems(1) have "finite (acc \<union> cur)" by simp
      from Cons.IH[OF this l] have "s = acc \<union> cur \<union> ?U (Suc k) rs" .
      moreover from True Inr have "?U k (r # rs) = cur \<union> ?U (Suc k) rs"
        by (simp only: ex_less_Cons nth_Cons_0 nth_Cons_Suc ownBefore_Suc ownBefore_0) auto
      ultimately show ?thesis by (simp only: Un_assoc)
    qed
  qed
qed

lemma takeLowest_finite: "takeLowest topo pool n = Inr cur \<Longrightarrow> finite cur"
  by (auto simp: takeLowest_def split: if_splits)

text \<open>
  C7, as the code has it. For each of the three managers, the allocation results of other
  drivers have no effect on \<open>AllocateCPUs\<close>: the call returns what it returns for the
  claim without them, so they raise no error. For a claim whose allocation is present:
  when no allocation result is of this driver, the call returns the empty CPU set and no
  error; and a set returned without error is made of this driver's results only, for the
  individual manager the CPUs that its index gives for their devices, for a grouped
  manager the union of what the packing primitive selected for each of them (the packing
  primitive returning finite sets), the pool of each being that of the call of
  \<open>getSharedCPUs\<close> made for it.
\<close>

theorem AllocateCPUs_driver_scoped:
  "IndividualAllocateCPUs imgr (dropForeignResults (driverName imgr) claim) =
     IndividualAllocateCPUs imgr claim \<and>
   SocketAllocateCPUs takeCPUs smgr (dropForeignResults (driverName smgr) claim) =
     SocketAllocateCPUs takeCPUs smgr claim \<and>
   NUMAAllocateCPUs takeCPUs nmgr (dropForeignResults (driverName nmgr) claim) =
     NUMAAllocateCPUs takeCPUs nmgr claim \<and>
   (Allocation claim = Some a \<and> (\<forall>alloc\<in>set (Results a). Driver alloc \<noteq> driverName imgr)
      \<longrightarrow> IndividualAllocateCPUs imgr claim = Return ({}, None)) \<and>
   (Allocation claim = Some a \<and> (\<forall>alloc\<in>set (Results a). Driver alloc \<noteq> driverName smgr)
      \<longrightarrow> SocketAllocateCPUs takeCPUs smgr claim = Return ({}, None)) \<and>
   (Allocation claim = Some a \<and> (\<forall>alloc\<in>set (Results a). Driver alloc \<noteq> driverName nmgr)
      \<longrightarrow> NUMAAllocateCPUs takeCPUs nmgr claim = Return ({}, None)) \<and>
   (Allocation claim = Some a \<and> IndividualAllocateCPUs imgr claim = Return (s, None)
      \<longrightarrow> s = {c. \<exists>alloc\<in>set (Results a). Driver alloc = driverName imgr \<and>
                    deviceNameToCPUID imgr (Device alloc) = Some c}) \<and>
   (Allocation claim = Some a \<and>
    (\<forall>topo pool n cur. takeCPUs topo pool n = Inr cur \<longrightarrow> finite cur) \<and>
    SocketAllocateCPUs takeCPUs smgr claim = Return (s, None)
      \<longrightarrow> s = \<Union>{cur. \<exists>i<length (Results a). Driver (Results a ! i) = driverName smgr \<and>
                    socketSelection takeCPUs smgr (ownBefore (driverName smgr) (Results a) i)
                      (Results a ! i) = Inr cur}) \<and>
   (Allocation claim = Some a \<and>
    (\<forall>topo pool n cur. takeCPUs topo pool n = Inr cur \<longrightarrow> finite cur) \<and>
    NUMAAllocateCPUs takeCPUs nmgr claim = Return (s, None)
      \<longrightarrow> s = \<Union>{cur. \<exists>i<length (Results a). Driver (Results a ! i) = driverName nmgr \<and>
                    numaSelection takeCPUs nmgr (ownBefore (driverName nmgr) (Results a) i)
                      (Results a ! i) = Inr cur})"
proof (intro conjI impI)
  show "IndividualAllocateCPUs imgr (dropForeignResults (driverName imgr) claim) =
     IndividualAllocateCPUs imgr claim"
    by (cases "Allocation claim")
      (simp_all add: IndividualAllocateCPUs_def dropForeignResults_def individualAllocLoop_filter)
  show "SocketAllocateCPUs takeCPUs smgr (dropForeignResults (driverName smgr) claim) =
     SocketAllocateCPUs takeCPUs smgr claim"
    by (cases "Allocation claim")
      (simp_all add: SocketAllocateCPUs_def dropForeignResults_def socketAllocLoop_filter)
  show "NUMAAllocateCPUs takeCPUs nmgr (dropForeignResults (driverName nmgr) claim) =
     NUMAAllocateCPUs takeCPUs nmgr claim"
    by (cases "Allocation claim")
      (simp_all add: NUMAAllocateCPUs_def dropForeignResults_def numaAllocLoop_filter)
next
  assume "Allocation claim = Some a \<and> (\<forall>alloc\<in>set (Results a). Driver alloc \<noteq> driverName imgr)"
  then show "IndividualAllocateCPUs imgr claim = Return ({}, None)"
    by (simp add: IndividualAllocateCPUs_def individualAllocLoop_foreign)
next
  assume "Allocation claim = Some a \<and> (\<forall>alloc\<in>set (Results a). Driver alloc \<noteq> driverName smgr)"
  then show "SocketAllocateCPUs takeCPUs smgr claim = Return ({}, None)"
    by (simp add: SocketAllocateCPUs_def socketAllocLoop_foreign)
next
  assume "Allocation claim = Some a \<and> (\<forall>alloc\<in>set (Results a). Driver alloc \<noteq> driverName nmgr)"
  then show "NUMAAllocateCPUs takeCPUs nmgr claim = Return ({}, None)"
    by (simp add: NUMAAllocateCPUs_def numaAllocLoop_foreign)
next
  assume "Allocation claim = Some a \<and> IndividualAllocateCPUs imgr claim = Return (s, None)"
  then have "individualAllocLoop imgr [] (Results a) = (s, None)"
    by (auto simp: IndividualAllocateCPUs_def)
  from individualAllocLoop_resolved[OF this]
  show "s = {c. \<exists>alloc\<in>set (Results a). Driver alloc = driverName imgr \<and>
                    deviceNameToCPUID imgr (Device alloc) = Some c}"
    by simp
next
  assume "Allocation claim = Some a \<and>
    (\<forall>topo pool n cur. takeCPUs topo pool n = Inr cur \<longrightarrow> finite cur) \<and>
    SocketAllocateCPUs takeCPUs smgr claim = Return (s, None)"
  then have fin: "\<forall>topo pool n cur. takeCPUs topo pool n = Inr cur \<longrightarrow> finite cur"
    and l: "socketAllocLoop takeCPUs smgr 0 {} (Results a) = (s, None)"
    by (auto simp: SocketAllocateCPUs_def)
  have e: "finite ({} :: int set)" by simp
  from socketAllocLoop_resolved[OF fin e l]
  show "s = \<Union>{cur. \<exists>i<length (Results a). Driver (Results a ! i) = driverName smgr \<and>
                    socketSelection takeCPUs smgr (ownBefore (driverName smgr) (Results a) i)
                      (Results a ! i) = Inr cur}"
    by simp
next
  assume "Allocation claim = Some a \<and>
    (\<forall>topo pool n cur. takeCPUs topo pool n = Inr cur \<longrightarrow> finite cur) \<and>
    NUMAAllocateCPUs takeCPUs nmgr claim = Return (s, None)"
  then have fin: "\<forall>topo pool n cur. takeCPUs topo pool n = Inr cur \<longrightarrow> finite cur"
    and l: "numaAllocLoop takeCPUs nmgr 0 {} (Results a) = (s, None)"
    by (auto simp: NUMAAllocateCPUs_def)
  have e: "finite ({} :: int set)" by simp
  from numaAllocLoop_resolved[OF fin e l]
  show "s = \<Union>{cur. \<exists>i<length (Results a). Driver (Results a ! i) = driverName nmgr \<and>
                    numaSelection takeCPUs nmgr (ownBefore (driverName nmgr) (Results a) i)
                      (Results a ! i) = Inr cur}"
    by simp
qed

text \<open>
  An instance: on the SMT topology, a claim with a result of another driver and one of
  this driver is resolved by each manager to what its own result selects (CPU 2 for the
  device \<open>cpudev001\<close>; the two lowest CPUs of the pool for two CPUs of the socket or
  NUMA node), and a claim with the result of the other driver only to the empty set.
\<close>

theorem AllocateCPUs_driver_scoped_witness:
  "IndividualAllocateCPUs exampleIndividualManager
     (exampleClaim [exampleResult ''gpu.example.com'' ''gpu0'' 1,
                    exampleResult ''dra.cpu'' ''cpudev001'' 1]) = Return ({2}, None) \<and>
   IndividualAllocateCPUs exampleIndividualManager
     (exampleClaim [exampleResult ''gpu.example.com'' ''gpu0'' 1]) = Return ({}, None) \<and>
   SocketAllocateCPUs takeLowest exampleSocketManager
     (exampleClaim [exampleResult ''gpu.example.com'' ''gpu0'' 1,
                    exampleResult ''dra.cpu'' ''cpudevsocket000'' 2]) = Return ({0, 1}, None) \<and>
   NUMAAllocateCPUs takeLowest exampleNUMAManager
     (exampleClaim [exampleResult ''gpu.example.com'' ''gpu0'' 1,
                    exampleResult ''dra.cpu'' ''cpudevnuma000'' 2]) = Return ({0, 1}, None) \<and>
   socketSelection takeLowest exampleSocketManager 0
     (exampleResult ''dra.cpu'' ''cpudevsocket000'' 2) = Inr {0, 1} \<and>
   {0, 1} = \<Union>{cur. \<exists>i<length [exampleResult ''gpu.example.com'' ''gpu0'' 1,
                                exampleResult ''dra.cpu'' ''cpudevsocket000'' 2].
        Driver ([exampleResult ''gpu.example.com'' ''gpu0'' 1,
                 exampleResult ''dra.cpu'' ''cpudevsocket000'' 2] ! i) =
          driverName exampleSocketManager \<and>
        socketSelection takeLowest exampleSocketManager
          (ownBefore (driverName exampleSocketManager)
             [exampleResult ''gpu.example.com'' ''gpu0'' 1,
              exampleResult ''dra.cpu'' ''cpudevsocket000'' 2] i)
          ([exampleResult ''gpu.example.com'' ''gpu0'' 1,
            exampleResult ''dra.cpu'' ''cpudevsocket000'' 2] ! i) = Inr cur}"
proof -
  let ?f = "exampleResult ''gpu.example.com'' ''gpu0'' 1"
  let ?o = "exampleResult ''dra.cpu'' ''cpudev001'' 1"
  let ?so = "exampleResult ''dra.cpu'' ''cpudevsocket000'' 2"
  let ?no = "exampleResult ''dra.cpu'' ''cpudevnuma000'' 2"
  note t = AllocateCPUs_driver_scoped
    [where imgr = exampleIndividualManager and claim = "exampleClaim [?f, ?o]"]
  have "IndividualAllocateCPUs exampleIndividualManager
          (dropForeignResults (driverName exampleIndividualManager) (exampleClaim [?f, ?o])) =
        Return ({2}, None)"
    by code_simp
  then have 1: "IndividualAllocateCPUs exampleIndividualManager (exampleClaim [?f, ?o]) =
        Return ({2}, None)"
    by (simp only: t [THEN conjunct1])
  note u = AllocateCPUs_driver_scoped
    [where imgr = exampleIndividualManager and claim = "exampleClaim [?f]"
       and a = "\<lparr>Results = [?f]\<rparr>"]
  have dn: "driverName exampleIndividualManager = ''dra.cpu''"
    by code_simp
  have "Allocation (exampleClaim [?f]) = Some \<lparr>Results = [?f]\<rparr> \<and>
        (\<forall>alloc\<in>set (Results \<lparr>Results = [?f]\<rparr>).
           Driver alloc \<noteq> driverName exampleIndividualManager)"
    by (simp add: exampleClaim_def exampleResult_def dn)
  then have 2: "IndividualAllocateCPUs exampleIndividualManager (exampleClaim [?f]) =
        Return ({}, None)"
    by (rule u [THEN conjunct2, THEN conjunct2, THEN conjunct2, THEN conjunct1, rule_format])
  note v = AllocateCPUs_driver_scoped
    [where smgr = exampleSocketManager and takeCPUs = takeLowest
       and claim = "exampleClaim [?f, ?so]" and a = "\<lparr>Results = [?f, ?so]\<rparr>"
       and s = "{0, 1}"]
  have "SocketAllocateCPUs takeLowest exampleSocketManager
          (dropForeignResults (driverName exampleSocketManager) (exampleClaim [?f, ?so])) =
        Return ({0, 1}, None)"
    by code_simp
  then have 3: "SocketAllocateCPUs takeLowest exampleSocketManager (exampleClaim [?f, ?so]) =
        Return ({0, 1}, None)"
    by (simp only: v [THEN conjunct2, THEN conjunct1])
  note w = AllocateCPUs_driver_scoped
    [where nmgr = exampleNUMAManager and takeCPUs = takeLowest
       and claim = "exampleClaim [?f, ?no]"]
  have "NUMAAllocateCPUs takeLowest exampleNUMAManager
          (dropForeignResults (driverName exampleNUMAManager) (exampleClaim [?f, ?no])) =
        Return ({0, 1}, None)"
    by code_simp
  then have 4: "NUMAAllocateCPUs takeLowest exampleNUMAManager (exampleClaim [?f, ?no]) =
        Return ({0, 1}, None)"
    by (simp only: w [THEN conjunct2, THEN conjunct2, THEN conjunct1])
  have 5: "socketSelection takeLowest exampleSocketManager 0 ?so = Inr {0, 1}"
    by code_simp
  have al: "Allocation (exampleClaim [?f, ?so]) = Some \<lparr>Results = [?f, ?so]\<rparr>"
    by (simp add: exampleClaim_def)
  have fin: "\<forall>topo pool n cur. takeLowest topo pool n = Inr cur \<longrightarrow> finite cur"
    using takeLowest_finite by blast
  from al fin 3 have "Allocation (exampleClaim [?f, ?so]) = Some \<lparr>Results = [?f, ?so]\<rparr> \<and>
      (\<forall>topo pool n cur. takeLowest topo pool n = Inr cur \<longrightarrow> finite cur) \<and>
      SocketAllocateCPUs takeLowest exampleSocketManager (exampleClaim [?f, ?so]) =
        Return ({0, 1}, None)"
    by (intro conjI)
  from v [THEN conjunct2, THEN conjunct2, THEN conjunct2, THEN conjunct2, THEN conjunct2,
          THEN conjunct2, THEN conjunct2, THEN conjunct1, rule_format, OF this]
  have 6: "{0, 1} = \<Union>{cur. \<exists>i<length [?f, ?so].
        Driver ([?f, ?so] ! i) = driverName exampleSocketManager \<and>
        socketSelection takeLowest exampleSocketManager
          (ownBefore (driverName exampleSocketManager) [?f, ?so] i) ([?f, ?so] ! i) = Inr cur}"
    by simp
  from 1 2 3 4 5 6 show ?thesis by (intro conjI)
qed

text \<open>
  C7, as stated, fails for a claim without allocation: it has no allocation result of
  this driver, and \<open>AllocateCPUs\<close> of each manager returns no empty set for it but
  dereferences the nil allocation and panics.
\<close>

theorem AllocateCPUs_driver_scoped_counterexample:
  "Allocation claimWithoutAllocation = None \<and>
   IndividualAllocateCPUs exampleIndividualManager claimWithoutAllocation = Panic \<and>
   SocketAllocateCPUs takeLowest exampleSocketManager claimWithoutAllocation = Panic \<and>
   NUMAAllocateCPUs takeLowest exampleNUMAManager claimWithoutAllocation = Panic"
  by (simp add: IndividualAllocateCPUs_def SocketAllocateCPUs_def NUMAAllocateCPUs_def
        claimWithoutAllocation_def)

text \<open>
  C3. \<open>AllocateCPUs\<close> is atomic on failure. Whenever one of the three managers returns an
  error, the CPU set it returns with it is empty. The individual manager returns an
  error when some allocation result of its driver names a device that is not in its
  index. A grouped manager returns an error when some allocation result of its driver
  fails, that is, names a device that is not in the index or makes the packing primitive
  return an error for the pool that the call of \<open>getSharedCPUs\<close> for this result gives.
\<close>

theorem AllocateCPUs_atomic_on_failure:
  "(\<forall>s e. IndividualAllocateCPUs imgr claim = Return (s, Some e) \<longrightarrow> s = {}) \<and>
   (\<forall>s e. SocketAllocateCPUs takeCPUs smgr claim = Return (s, Some e) \<longrightarrow> s = {}) \<and>
   (\<forall>s e. NUMAAllocateCPUs takeCPUs nmgr claim = Return (s, Some e) \<longrightarrow> s = {}) \<and>
   (Allocation claim = Some a \<and>
    (\<exists>alloc\<in>set (Results a). Driver alloc = driverName imgr \<and>
        deviceNameToCPUID imgr (Device alloc) = None)
      \<longrightarrow> (\<exists>e. IndividualAllocateCPUs imgr claim = Return ({}, Some e))) \<and>
   (Allocation claim = Some a \<and>
    (\<exists>i<length (Results a). Driver (Results a ! i) = driverName smgr \<and>
        socketResultFails takeCPUs smgr (ownBefore (driverName smgr) (Results a) i)
          (Results a ! i))
      \<longrightarrow> (\<exists>e. SocketAllocateCPUs takeCPUs smgr claim = Return ({}, Some e))) \<and>
   (Allocation claim = Some a \<and>
    (\<exists>i<length (Results a). Driver (Results a ! i) = driverName nmgr \<and>
        numaResultFails takeCPUs nmgr (ownBefore (driverName nmgr) (Results a) i)
          (Results a ! i))
      \<longrightarrow> (\<exists>e. NUMAAllocateCPUs takeCPUs nmgr claim = Return ({}, Some e)))"
proof (intro conjI allI impI)
  fix s e
  assume "IndividualAllocateCPUs imgr claim = Return (s, Some e)"
  then show "s = {}"
    by (cases "Allocation claim")
      (auto simp: IndividualAllocateCPUs_def dest: individualAllocLoop_error_empty)
next
  fix s e
  assume "SocketAllocateCPUs takeCPUs smgr claim = Return (s, Some e)"
  then show "s = {}"
    by (cases "Allocation claim")
      (auto simp: SocketAllocateCPUs_def dest: socketAllocLoop_error_empty)
next
  fix s e
  assume "NUMAAllocateCPUs takeCPUs nmgr claim = Return (s, Some e)"
  then show "s = {}"
    by (cases "Allocation claim")
      (auto simp: NUMAAllocateCPUs_def dest: numaAllocLoop_error_empty)
next
  assume "Allocation claim = Some a \<and>
    (\<exists>alloc\<in>set (Results a). Driver alloc = driverName imgr \<and>
        deviceNameToCPUID imgr (Device alloc) = None)"
  then obtain alloc where "Allocation claim = Some a" "alloc \<in> set (Results a)"
    "Driver alloc = driverName imgr" "deviceNameToCPUID imgr (Device alloc) = None"
    by blast
  with individualAllocLoop_unknown[of alloc "Results a" imgr "[]"]
  show "\<exists>e. IndividualAllocateCPUs imgr claim = Return ({}, Some e)"
    by (simp add: IndividualAllocateCPUs_def)
next
  assume "Allocation claim = Some a \<and>
    (\<exists>i<length (Results a). Driver (Results a ! i) = driverName smgr \<and>
        socketResultFails takeCPUs smgr (ownBefore (driverName smgr) (Results a) i)
          (Results a ! i))"
  then obtain i where "Allocation claim = Some a" "i < length (Results a)"
    "Driver (Results a ! i) = driverName smgr"
    "socketResultFails takeCPUs smgr (ownBefore (driverName smgr) (Results a) i) (Results a ! i)"
    by blast
  with socketAllocLoop_fails[of i "Results a" smgr takeCPUs 0 "{}"]
  show "\<exists>e. SocketAllocateCPUs takeCPUs smgr claim = Return ({}, Some e)"
    by (simp add: SocketAllocateCPUs_def)
next
  assume "Allocation claim = Some a \<and>
    (\<exists>i<length (Results a). Driver (Results a ! i) = driverName nmgr \<and>
        numaResultFails takeCPUs nmgr (ownBefore (driverName nmgr) (Results a) i)
          (Results a ! i))"
  then obtain i where "Allocation claim = Some a" "i < length (Results a)"
    "Driver (Results a ! i) = driverName nmgr"
    "numaResultFails takeCPUs nmgr (ownBefore (driverName nmgr) (Results a) i) (Results a ! i)"
    by blast
  with numaAllocLoop_fails[of i "Results a" nmgr takeCPUs 0 "{}"]
  show "\<exists>e. NUMAAllocateCPUs takeCPUs nmgr claim = Return ({}, Some e)"
    by (simp add: NUMAAllocateCPUs_def)
qed

text \<open>
  An instance, the example of the spec: the first result takes two of the three free
  CPUs of the socket, the second asks for four and fails, and nothing is returned.
\<close>

theorem AllocateCPUs_atomic_on_failure_witness:
  "SocketAllocateCPUs takeLowest exampleSocketManager
     (exampleClaim [exampleResult ''dra.cpu'' ''cpudevsocket000'' 2]) = Return ({0, 1}, None) \<and>
   socketResultFails takeLowest exampleSocketManager 1
     (exampleResult ''dra.cpu'' ''cpudevsocket000'' 4) \<and>
   (\<exists>e. SocketAllocateCPUs takeLowest exampleSocketManager
     (exampleClaim [exampleResult ''dra.cpu'' ''cpudevsocket000'' 2,
                    exampleResult ''dra.cpu'' ''cpudevsocket000'' 4]) = Return ({}, Some e))"
proof -
  let ?r2 = "exampleResult ''dra.cpu'' ''cpudevsocket000'' 2"
  let ?r4 = "exampleResult ''dra.cpu'' ''cpudevsocket000'' 4"
  let ?a = "\<lparr>Results = [?r2, ?r4]\<rparr>"
  have 1: "SocketAllocateCPUs takeLowest exampleSocketManager (exampleClaim [?r2]) =
           Return ({0, 1}, None)"
    by code_simp
  have 2: "socketResultFails takeLowest exampleSocketManager 1 ?r4"
    by code_simp
  have p1: "Allocation (exampleClaim [?r2, ?r4]) = Some ?a"
    by (simp add: exampleClaim_def)
  have p2: "1 < length (Results ?a)" by simp
  have p3: "Driver (Results ?a ! 1) = driverName exampleSocketManager"
    by code_simp
  have p4: "socketResultFails takeLowest exampleSocketManager
              (ownBefore (driverName exampleSocketManager) (Results ?a) 1) (Results ?a ! 1)"
    by code_simp
  note t = AllocateCPUs_atomic_on_failure
    [where smgr = exampleSocketManager and takeCPUs = takeLowest
       and claim = "exampleClaim [?r2, ?r4]" and a = ?a]
  note u = t [THEN conjunct2, THEN conjunct2, THEN conjunct2, THEN conjunct2, THEN conjunct1]
  from p1 p2 p3 p4
  have "Allocation (exampleClaim [?r2, ?r4]) = Some ?a \<and>
    (\<exists>i<length (Results ?a). Driver (Results ?a ! i) = driverName exampleSocketManager \<and>
        socketResultFails takeLowest exampleSocketManager
          (ownBefore (driverName exampleSocketManager) (Results ?a) i) (Results ?a ! i))"
    by blast
  then have 3: "\<exists>e. SocketAllocateCPUs takeLowest exampleSocketManager
     (exampleClaim [?r2, ?r4]) = Return ({}, Some e)"
    by (rule u [rule_format])
  from 1 2 3 show ?thesis by (intro conjI)
qed

section \<open>Claims about panics\<close>

lemma prepareResourceClaim_returns:
  assumes "Allocation claim \<noteq> None \<longrightarrow> (\<exists>r. allocateCPUs claim = Return r)"
  shows "\<exists>r. prepareResourceClaim allocateCPUs addDevice envVarOf qualifiedNameOf claim = Return r"
proof (cases "Allocation claim")
  case None
  then show ?thesis by (simp add: prepareResourceClaim_def)
next
  case (Some a)
  with assms obtain s e where "allocateCPUs claim = Return (s, e)" by fastforce
  with Some show ?thesis
    by (cases e; cases "addDevice (getCDIDeviceName (UID claim)) (envVarOf (UID claim) s)")
      (simp_all add: prepareResourceClaim_def Let_def)
qed

text \<open>
  C9, as the code has it. \<open>prepareResourceClaim\<close> returns a result for every claim,
  whichever manager resolves it: a claim without allocation is answered with an error
  before the manager is called, and an error of \<open>AllocateCPUs\<close> is returned in the
  result. \<open>AllocateCPUs\<close> of each manager returns for every claim that has an allocation.
  (The collaborators are total functions of the model: the packing primitive and the CDI
  manager return a value or an error.)
\<close>

theorem claim_resolution_no_panic:
  "(\<exists>r. prepareResourceClaim (IndividualAllocateCPUs imgr) addDevice envVarOf qualifiedNameOf
           claim = Return r) \<and>
   (\<exists>r. prepareResourceClaim (SocketAllocateCPUs takeCPUs smgr) addDevice envVarOf qualifiedNameOf
           claim = Return r) \<and>
   (\<exists>r. prepareResourceClaim (NUMAAllocateCPUs takeCPUs nmgr) addDevice envVarOf qualifiedNameOf
           claim = Return r) \<and>
   (Allocation claim = None \<longrightarrow>
      prepareResourceClaim allocateCPUs addDevice envVarOf qualifiedNameOf claim =
        Return \<lparr>Devices = [], Err = Some (NoAllocation (ClaimNamespace claim) (ClaimName claim))\<rparr>) \<and>
   (Allocation claim \<noteq> None \<and> allocateCPUs claim = Return (s, Some e) \<longrightarrow>
      prepareResourceClaim allocateCPUs addDevice envVarOf qualifiedNameOf claim =
        Return \<lparr>Devices = [], Err = Some e\<rparr>) \<and>
   (Allocation claim \<noteq> None \<longrightarrow>
      (\<exists>r. IndividualAllocateCPUs imgr claim = Return r) \<and>
      (\<exists>r. SocketAllocateCPUs takeCPUs smgr claim = Return r) \<and>
      (\<exists>r. NUMAAllocateCPUs takeCPUs nmgr claim = Return r))"
proof -
  have i: "Allocation claim \<noteq> None \<longrightarrow> (\<exists>r. IndividualAllocateCPUs imgr claim = Return r)"
    by (auto simp: IndividualAllocateCPUs_def)
  have s: "Allocation claim \<noteq> None \<longrightarrow> (\<exists>r. SocketAllocateCPUs takeCPUs smgr claim = Return r)"
    by (auto simp: SocketAllocateCPUs_def)
  have n: "Allocation claim \<noteq> None \<longrightarrow> (\<exists>r. NUMAAllocateCPUs takeCPUs nmgr claim = Return r)"
    by (auto simp: NUMAAllocateCPUs_def)
  have a: "Allocation claim = None \<longrightarrow>
      prepareResourceClaim allocateCPUs addDevice envVarOf qualifiedNameOf claim =
        Return \<lparr>Devices = [], Err = Some (NoAllocation (ClaimNamespace claim) (ClaimName claim))\<rparr>"
    by (simp add: prepareResourceClaim_def)
  have b: "Allocation claim \<noteq> None \<and> allocateCPUs claim = Return (s, Some e) \<longrightarrow>
      prepareResourceClaim allocateCPUs addDevice envVarOf qualifiedNameOf claim =
        Return \<lparr>Devices = [], Err = Some e\<rparr>"
    by (auto simp: prepareResourceClaim_def)
  from i s n have c: "Allocation claim \<noteq> None \<longrightarrow>
      (\<exists>r. IndividualAllocateCPUs imgr claim = Return r) \<and>
      (\<exists>r. SocketAllocateCPUs takeCPUs smgr claim = Return r) \<and>
      (\<exists>r. NUMAAllocateCPUs takeCPUs nmgr claim = Return r)" by simp
  show ?thesis
    by (intro conjI)
      (rule prepareResourceClaim_returns
         [where allocateCPUs = "IndividualAllocateCPUs imgr", OF i],
       rule prepareResourceClaim_returns
         [where allocateCPUs = "SocketAllocateCPUs takeCPUs smgr", OF s],
       rule prepareResourceClaim_returns
         [where allocateCPUs = "NUMAAllocateCPUs takeCPUs nmgr", OF n],
       rule a, rule b, rule c)
qed

theorem claim_resolution_no_panic_witness:
  "prepareResourceClaim (IndividualAllocateCPUs exampleIndividualManager)
     exampleAddDevice exampleEnvVar exampleQualifiedName
     claimWithoutAllocation =
     Return \<lparr>Devices = [], Err = Some (NoAllocation ''default'' ''claim'')\<rparr> \<and>
   (\<exists>r. IndividualAllocateCPUs exampleIndividualManager
      (exampleClaim [exampleResult ''dra.cpu'' ''cpudev009'' 1]) = Return r) \<and>
   prepareResourceClaim (IndividualAllocateCPUs exampleIndividualManager)
     exampleAddDevice exampleEnvVar exampleQualifiedName
     (exampleClaim [exampleResult ''dra.cpu'' ''cpudev009'' 1]) =
     Return \<lparr>Devices = [], Err = Some (DeviceNotFound ''cpudev009'')\<rparr>"
proof -
  let ?c = "exampleClaim [exampleResult ''dra.cpu'' ''cpudev009'' 1]"
  let ?p = "\<lambda>claim. prepareResourceClaim (IndividualAllocateCPUs exampleIndividualManager)
     exampleAddDevice exampleEnvVar exampleQualifiedName claim"
  note t = claim_resolution_no_panic
    [where imgr = exampleIndividualManager
       and allocateCPUs = "IndividualAllocateCPUs exampleIndividualManager"
       and addDevice = exampleAddDevice and envVarOf = exampleEnvVar
       and qualifiedNameOf = exampleQualifiedName]
  have n: "Allocation claimWithoutAllocation = None"
    by (simp add: claimWithoutAllocation_def)
  from t [where claim = claimWithoutAllocation, THEN conjunct2, THEN conjunct2, THEN conjunct2,
          THEN conjunct1, rule_format, OF n]
  have 1: "?p claimWithoutAllocation =
     Return \<lparr>Devices = [], Err = Some (NoAllocation ''default'' ''claim'')\<rparr>"
    by (simp add: claimWithoutAllocation_def)
  have s: "Allocation ?c \<noteq> None"
    by (simp add: exampleClaim_def)
  from t [where claim = ?c, THEN conjunct2, THEN conjunct2, THEN conjunct2, THEN conjunct2,
          THEN conjunct2, rule_format, OF s]
  have 2: "\<exists>r. IndividualAllocateCPUs exampleIndividualManager ?c = Return r"
    by (rule conjunct1)
  have e: "IndividualAllocateCPUs exampleIndividualManager ?c =
             Return ({}, Some (DeviceNotFound ''cpudev009''))"
    by code_simp
  from s e have "Allocation ?c \<noteq> None \<and>
      IndividualAllocateCPUs exampleIndividualManager ?c = Return ({}, Some (DeviceNotFound ''cpudev009''))"
    by (rule conjI)
  from t [where claim = ?c and s = "{}" and e = "DeviceNotFound ''cpudev009''",
          THEN conjunct2, THEN conjunct2, THEN conjunct2, THEN conjunct2, THEN conjunct1,
          rule_format, OF this]
  have 3: "?p ?c = Return \<lparr>Devices = [], Err = Some (DeviceNotFound ''cpudev009'')\<rparr>" .
  from 1 2 3 show ?thesis by (intro conjI)
qed

text \<open>
  C9, as stated, fails: called on a claim without allocation, \<open>AllocateCPUs\<close> of each
  manager dereferences the nil allocation and panics; only the guard of
  \<open>prepareResourceClaim\<close> keeps such a claim away from it.
\<close>

theorem AllocateCPUs_panics_without_allocation:
  "IndividualAllocateCPUs exampleIndividualManager claimWithoutAllocation = Panic \<and>
   SocketAllocateCPUs takeLowest exampleSocketManager claimWithoutAllocation = Panic \<and>
   NUMAAllocateCPUs takeLowest exampleNUMAManager claimWithoutAllocation = Panic"
  by (simp add: IndividualAllocateCPUs_def SocketAllocateCPUs_def NUMAAllocateCPUs_def
        claimWithoutAllocation_def)

section \<open>Claims about the grouped catalogs\<close>

lemma finite_CPUsIn [simp]: "finite (CPUsInSockets d i)" "finite (CPUsInNUMANodes d i)"
  by (simp_all add: CPUsInSockets_def CPUsInNUMANodes_def)

lemma card_allocatable:
  "finite C \<Longrightarrow> int (card (C - R)) = int (card C) - int (card (C \<inter> R))"
proof -
  assume f: "finite C"
  then have "card (C - R) = card C - card (C \<inter> R)"
    by (intro card_Diff_subset_Int) simp
  moreover from f have "card (C \<inter> R) \<le> card C"
    by (intro card_mono) simp_all
  ultimately show ?thesis by simp
qed

lemma socketLoop_devices:
  "fst (socketLoop topo resv idx ids) =
     map (\<lambda>i. groupedDevice (deviceNameOf cpuDeviceSocketGroupedPrefix i)
                 (MakeGroupedAttributes topo i (CPUsInSockets (CPUDetails topo) i - resv))
                 (int (card (CPUsInSockets (CPUDetails topo) i - resv))))
       (filter (\<lambda>i. CPUsInSockets (CPUDetails topo) i - resv \<noteq> {}) ids)"
  by (induction ids arbitrary: idx) (simp_all add: Let_def split_beta)

lemma numaLoop_devices:
  "fst (numaLoop anyCPUOf topo resv idx ids) =
     map (\<lambda>i. groupedDevice (deviceNameOf cpuDeviceNUMAGroupedPrefix i)
                 ((MakeGroupedAttributes topo
                     (SocketID (lookupCPUInfo (map_of (CPUDetails topo))
                        (anyCPUOf (CPUsInNUMANodes (CPUDetails topo) i - resv))))
                     (CPUsInNUMANodes (CPUDetails topo) i - resv))
                   (''dra.cpu/numaNodeID'' \<mapsto> IntValue i, ''dra.net/numaNode'' \<mapsto> IntValue i))
                 (int (card (CPUsInNUMANodes (CPUDetails topo) i - resv))))
       (filter (\<lambda>i. CPUsInNUMANodes (CPUDetails topo) i - resv \<noteq> {}) ids)"
  by (induction ids arbitrary: idx) (simp_all add: Let_def split_beta)

lemma cpusetList_set: "distinct (cpusetList (set xs))" "set (cpusetList (set xs)) = set xs"
  "sorted (cpusetList (set xs))"
  by (simp_all add: cpusetList_def)

text \<open>
  C5. The catalog of a grouped manager has one device per coordinate with at least one
  non-reserved CPU, in ascending order of the coordinate and none twice; a coordinate
  whose CPUs are all reserved has no device. The device is named after the coordinate
  and carries it as an attribute, its capacity for \<open>dra.cpu/cpu\<close> is the number of the
  coordinate's CPUs minus the number of reserved CPUs among them, and its
  multiple-allocations flag is set.
\<close>

theorem grouped_CreateSlices_devices:
  "map Name (concat (fst (SocketCreateSlices smgr))) =
     map (deviceNameOf cpuDeviceSocketGroupedPrefix)
       (socketsWithAllocatableCPUs (CPUDetails (cpuTopology smgr)) (reservedCPUs smgr)) \<and>
   map (\<lambda>dv. Attributes dv ''dra.cpu/socketID'') (concat (fst (SocketCreateSlices smgr))) =
     map (\<lambda>i. Some (IntValue i))
       (socketsWithAllocatableCPUs (CPUDetails (cpuTopology smgr)) (reservedCPUs smgr)) \<and>
   map (\<lambda>dv. Capacity dv cpuResourceQualifiedName) (concat (fst (SocketCreateSlices smgr))) =
     map (\<lambda>i. Some (int (card (CPUsInSockets (CPUDetails (cpuTopology smgr)) i)) -
                      int (card (CPUsInSockets (CPUDetails (cpuTopology smgr)) i \<inter> reservedCPUs smgr))))
       (socketsWithAllocatableCPUs (CPUDetails (cpuTopology smgr)) (reservedCPUs smgr)) \<and>
   map AllowMultipleAllocations (concat (fst (SocketCreateSlices smgr))) =
     map (\<lambda>i. Some True)
       (socketsWithAllocatableCPUs (CPUDetails (cpuTopology smgr)) (reservedCPUs smgr)) \<and>
   distinct (socketsWithAllocatableCPUs (CPUDetails (cpuTopology smgr)) (reservedCPUs smgr)) \<and>
   set (socketsWithAllocatableCPUs (CPUDetails (cpuTopology smgr)) (reservedCPUs smgr)) =
     {i \<in> Sockets (CPUDetails (cpuTopology smgr)).
        \<exists>cpu. cpu \<in> CPUsInSockets (CPUDetails (cpuTopology smgr)) i \<and> cpu \<notin> reservedCPUs smgr} \<and>
   map Name (concat (fst (NUMACreateSlices anyCPUOf nmgr))) =
     map (deviceNameOf cpuDeviceNUMAGroupedPrefix)
       (numaNodesWithAllocatableCPUs (CPUDetails (cpuTopology nmgr)) (reservedCPUs nmgr)) \<and>
   map (\<lambda>dv. Attributes dv ''dra.cpu/numaNodeID'') (concat (fst (NUMACreateSlices anyCPUOf nmgr))) =
     map (\<lambda>i. Some (IntValue i))
       (numaNodesWithAllocatableCPUs (CPUDetails (cpuTopology nmgr)) (reservedCPUs nmgr)) \<and>
   map (\<lambda>dv. Capacity dv cpuResourceQualifiedName) (concat (fst (NUMACreateSlices anyCPUOf nmgr))) =
     map (\<lambda>i. Some (int (card (CPUsInNUMANodes (CPUDetails (cpuTopology nmgr)) i)) -
                      int (card (CPUsInNUMANodes (CPUDetails (cpuTopology nmgr)) i \<inter> reservedCPUs nmgr))))
       (numaNodesWithAllocatableCPUs (CPUDetails (cpuTopology nmgr)) (reservedCPUs nmgr)) \<and>
   map AllowMultipleAllocations (concat (fst (NUMACreateSlices anyCPUOf nmgr))) =
     map (\<lambda>i. Some True)
       (numaNodesWithAllocatableCPUs (CPUDetails (cpuTopology nmgr)) (reservedCPUs nmgr)) \<and>
   distinct (numaNodesWithAllocatableCPUs (CPUDetails (cpuTopology nmgr)) (reservedCPUs nmgr)) \<and>
   set (numaNodesWithAllocatableCPUs (CPUDetails (cpuTopology nmgr)) (reservedCPUs nmgr)) =
     {i \<in> NUMANodes (CPUDetails (cpuTopology nmgr)).
        \<exists>cpu. cpu \<in> CPUsInNUMANodes (CPUDetails (cpuTopology nmgr)) i \<and> cpu \<notin> reservedCPUs nmgr}"
proof -
  let ?sd = "CPUDetails (cpuTopology smgr)" and ?sr = "reservedCPUs smgr"
  let ?nd = "CPUDetails (cpuTopology nmgr)" and ?nr = "reservedCPUs nmgr"
  let ?S = "concat (fst (SocketCreateSlices smgr))"
  let ?N = "concat (fst (NUMACreateSlices anyCPUOf nmgr))"
  have s1: "map Name ?S = map (deviceNameOf cpuDeviceSocketGroupedPrefix)
       (socketsWithAllocatableCPUs ?sd ?sr)"
    by (simp add: SocketCreateSlices_concat socketLoop_devices socketsWithAllocatableCPUs_def
          groupedDevice_def comp_def)
  have s2: "map (\<lambda>dv. Attributes dv ''dra.cpu/socketID'') ?S =
       map (\<lambda>i. Some (IntValue i)) (socketsWithAllocatableCPUs ?sd ?sr)"
    by (simp add: SocketCreateSlices_concat socketLoop_devices socketsWithAllocatableCPUs_def
          groupedDevice_def comp_def MakeGroupedAttributes_def)
  have s3: "map (\<lambda>dv. Capacity dv cpuResourceQualifiedName) ?S =
     map (\<lambda>i. Some (int (card (CPUsInSockets ?sd i)) - int (card (CPUsInSockets ?sd i \<inter> ?sr))))
       (socketsWithAllocatableCPUs ?sd ?sr)"
    by (simp add: SocketCreateSlices_concat socketLoop_devices socketsWithAllocatableCPUs_def
          groupedDevice_def comp_def card_allocatable)
  have s4: "map AllowMultipleAllocations ?S =
       map (\<lambda>i. Some True) (socketsWithAllocatableCPUs ?sd ?sr)"
    by (simp add: SocketCreateSlices_concat socketLoop_devices socketsWithAllocatableCPUs_def
          groupedDevice_def comp_def)
  have s5: "distinct (socketsWithAllocatableCPUs ?sd ?sr)"
    unfolding socketsWithAllocatableCPUs_def Sockets_def
    by (rule distinct_filter) (rule cpusetList_set)
  have s6: "set (socketsWithAllocatableCPUs ?sd ?sr) =
     {i \<in> Sockets ?sd. \<exists>cpu. cpu \<in> CPUsInSockets ?sd i \<and> cpu \<notin> ?sr}"
    unfolding socketsWithAllocatableCPUs_def Sockets_def set_filter cpusetList_set by blast
  have n1: "map Name ?N = map (deviceNameOf cpuDeviceNUMAGroupedPrefix)
       (numaNodesWithAllocatableCPUs ?nd ?nr)"
    by (simp add: NUMACreateSlices_concat numaLoop_devices numaNodesWithAllocatableCPUs_def
          groupedDevice_def comp_def)
  have n2: "map (\<lambda>dv. Attributes dv ''dra.cpu/numaNodeID'') ?N =
       map (\<lambda>i. Some (IntValue i)) (numaNodesWithAllocatableCPUs ?nd ?nr)"
    by (simp add: NUMACreateSlices_concat numaLoop_devices numaNodesWithAllocatableCPUs_def
          groupedDevice_def comp_def)
  have n3: "map (\<lambda>dv. Capacity dv cpuResourceQualifiedName) ?N =
     map (\<lambda>i. Some (int (card (CPUsInNUMANodes ?nd i)) - int (card (CPUsInNUMANodes ?nd i \<inter> ?nr))))
       (numaNodesWithAllocatableCPUs ?nd ?nr)"
    by (simp add: NUMACreateSlices_concat numaLoop_devices numaNodesWithAllocatableCPUs_def
          groupedDevice_def comp_def card_allocatable)
  have n4: "map AllowMultipleAllocations ?N =
       map (\<lambda>i. Some True) (numaNodesWithAllocatableCPUs ?nd ?nr)"
    by (simp add: NUMACreateSlices_concat numaLoop_devices numaNodesWithAllocatableCPUs_def
          groupedDevice_def comp_def)
  have n5: "distinct (numaNodesWithAllocatableCPUs ?nd ?nr)"
    unfolding numaNodesWithAllocatableCPUs_def NUMANodes_def
    by (rule distinct_filter) (rule cpusetList_set)
  have n6: "set (numaNodesWithAllocatableCPUs ?nd ?nr) =
     {i \<in> NUMANodes ?nd. \<exists>cpu. cpu \<in> CPUsInNUMANodes ?nd i \<and> cpu \<notin> ?nr}"
    unfolding numaNodesWithAllocatableCPUs_def NUMANodes_def set_filter cpusetList_set by blast
  show ?thesis
    by (intro conjI) (rule s1, rule s2, rule s3, rule s4, rule s5, rule s6,
      rule n1, rule n2, rule n3, rule n4, rule n5, rule n6)
qed

text \<open>
  An instance: with CPUs 1, 2 and 3 reserved, socket 1 and NUMA node 1 have no device,
  and the device of socket 0 and of NUMA node 0 has capacity 1.
\<close>

theorem grouped_CreateSlices_devices_witness:
  "map Name (concat (fst (SocketCreateSlices
      (NewSocketGroupedManager ''dra.cpu'' twoSocketTopology {1, 2, 3} (\<lambda>k. {}))))) =
     [''cpudevsocket000''] \<and>
   map (\<lambda>dv. Capacity dv cpuResourceQualifiedName) (concat (fst (SocketCreateSlices
      (NewSocketGroupedManager ''dra.cpu'' twoSocketTopology {1, 2, 3} (\<lambda>k. {}))))) =
     [Some 1] \<and>
   map Name (concat (fst (NUMACreateSlices Min
      (NewNUMAGroupedManager ''dra.cpu'' twoSocketTopology {1, 2, 3} (\<lambda>k. {}))))) =
     [''cpudevnuma000''] \<and>
   map (\<lambda>dv. Capacity dv cpuResourceQualifiedName) (concat (fst (NUMACreateSlices Min
      (NewNUMAGroupedManager ''dra.cpu'' twoSocketTopology {1, 2, 3} (\<lambda>k. {}))))) =
     [Some 1]"
proof -
  let ?s = "NewSocketGroupedManager ''dra.cpu'' twoSocketTopology {1, 2, 3} (\<lambda>k. {})"
  let ?n = "NewNUMAGroupedManager ''dra.cpu'' twoSocketTopology {1, 2, 3} (\<lambda>k. {})"
  have ts: "cpuTopology ?s = twoSocketTopology" "reservedCPUs ?s = {1, 2, 3}"
    by (simp_all add: NewSocketGroupedManager_def)
  have tn: "cpuTopology ?n = twoSocketTopology" "reservedCPUs ?n = {1, 2, 3}"
    by (simp_all add: NewNUMAGroupedManager_def)
  have ks: "socketsWithAllocatableCPUs (CPUDetails twoSocketTopology) {1, 2, 3} = [0]"
    by code_simp
  have kn: "numaNodesWithAllocatableCPUs (CPUDetails twoSocketTopology) {1, 2, 3} = [0]"
    by code_simp
  have ns: "map (deviceNameOf cpuDeviceSocketGroupedPrefix) [0] = [''cpudevsocket000'']"
    by code_simp
  have nn: "map (deviceNameOf cpuDeviceNUMAGroupedPrefix) [0] = [''cpudevnuma000'']"
    by code_simp
  have cs: "map (\<lambda>i. Some (int (card (CPUsInSockets (CPUDetails twoSocketTopology) i)) -
               int (card (CPUsInSockets (CPUDetails twoSocketTopology) i \<inter> {1, 2, 3})))) [0] =
            [Some 1]"
    by code_simp
  have cn: "map (\<lambda>i. Some (int (card (CPUsInNUMANodes (CPUDetails twoSocketTopology) i)) -
               int (card (CPUsInNUMANodes (CPUDetails twoSocketTopology) i \<inter> {1, 2, 3})))) [0] =
            [Some 1]"
    by code_simp
  note t = grouped_CreateSlices_devices [of ?s Min ?n]
  have 1: "map Name (concat (fst (SocketCreateSlices ?s))) = [''cpudevsocket000'']"
    using t [THEN conjunct1] by (simp only: ts ks ns)
  have 2: "map (\<lambda>dv. Capacity dv cpuResourceQualifiedName) (concat (fst (SocketCreateSlices ?s))) =
           [Some 1]"
    using t [THEN conjunct2, THEN conjunct2, THEN conjunct1] by (simp only: ts ks cs)
  note u = t [THEN conjunct2, THEN conjunct2, THEN conjunct2, THEN conjunct2, THEN conjunct2,
              THEN conjunct2]
  have 3: "map Name (concat (fst (NUMACreateSlices Min ?n))) = [''cpudevnuma000'']"
    using u [THEN conjunct1] by (simp only: tn kn nn)
  have 4: "map (\<lambda>dv. Capacity dv cpuResourceQualifiedName) (concat (fst (NUMACreateSlices Min ?n))) =
           [Some 1]"
    using u [THEN conjunct2, THEN conjunct2, THEN conjunct1] by (simp only: tn kn cn)
  from 1 2 3 4 show ?thesis by (intro conjI)
qed

section \<open>Claims about reserved CPUs\<close>

lemma takeLowest_subset: "takeLowest topo pool n = Inr cpus \<Longrightarrow> cpus \<subseteq> pool"
proof -
  assume a: "takeLowest topo pool n = Inr cpus"
  have "set (sorted_list_of_set pool) \<subseteq> pool"
    by (cases "finite pool") simp_all
  moreover from a have "cpus = set (take (nat n) (sorted_list_of_set pool))"
    by (auto simp: takeLowest_def split: if_splits)
  ultimately show ?thesis
    using set_take_subset[of "nat n" "sorted_list_of_set pool"] by blast
qed

lemma individualAllocLoop_ran:
  "individualAllocLoop mgr acc rs = (s, e) \<Longrightarrow> s \<subseteq> set acc \<union> ran (deviceNameToCPUID mgr)"
proof (induction rs arbitrary: acc)
  case Nil
  then show ?case by (auto split: if_splits)
next
  case (Cons r rs)
  show ?case
  proof (cases "Driver r \<noteq> driverName mgr")
    case True
    with Cons show ?thesis by simp
  next
    case False
    show ?thesis
    proof (cases "deviceNameToCPUID mgr (Device r)")
      case None
      with False Cons.prems show ?thesis by simp
    next
      case (Some c)
      with False Cons.prems have "individualAllocLoop mgr (acc @ [c]) rs = (s, e)" by simp
      from Cons.IH[OF this] have "s \<subseteq> set (acc @ [c]) \<union> ran (deviceNameToCPUID mgr)" .
      moreover from Some have "c \<in> ran (deviceNameToCPUID mgr)" by (auto simp: ran_def)
      ultimately show ?thesis by auto
    qed
  qed
qed

lemma deviceLoop_ran:
  "ran (snd (deviceLoop devId idx cpus)) \<subseteq> ran idx \<union> CpuID ` set cpus"
proof (induction cpus arbitrary: devId idx)
  case Nil
  then show ?case by simp
next
  case (Cons cpu cpus)
  let ?idx = "idx(deviceNameOf cpuDevicePrefix devId \<mapsto> CpuID cpu)"
  have u: "ran ?idx \<subseteq> insert (CpuID cpu) (ran idx)"
    by (auto simp: ran_def)
  have "snd (deviceLoop devId idx (cpu # cpus)) = snd (deviceLoop (devId + 1) ?idx cpus)"
    by (simp add: split_beta Let_def)
  then have "ran (snd (deviceLoop devId idx (cpu # cpus))) \<subseteq> ran ?idx \<union> CpuID ` set cpus"
    using Cons[of "devId + 1" ?idx] by (simp only:)
  with u show ?case by auto
qed

lemma IndividualCreateSlices_index:
  "deviceNameToCPUID (snd (IndividualCreateSlices mgr)) =
     snd (deviceLoop 0 (deviceNameToCPUID mgr)
            (concat (coreGroups (cpuTopology mgr) (reservedCPUs mgr))))"
  by (simp add: IndividualCreateSlices_def split_beta Let_def)

lemma groupLoop_not_reserved:
  assumes "\<forall>c\<in>set rest. CpuID c \<notin> resv"
    and "\<forall>c\<in>set rest. SiblingCpuID c = - 1 \<or> SiblingCpuID c \<in> resv \<or>
           (\<exists>x. m (SiblingCpuID c) = Some x \<and> CpuID x = SiblingCpuID c)"
  shows "\<forall>g\<in>set (groupLoop resv m P rest). \<forall>c\<in>set g. CpuID c \<notin> resv"
  using assms
proof (induction rest arbitrary: P)
  case Nil
  show ?case by simp
next
  case (Cons h rest)
  from Cons.prems have r: "\<forall>c\<in>set rest. CpuID c \<notin> resv"
    "\<forall>c\<in>set rest. SiblingCpuID c = - 1 \<or> SiblingCpuID c \<in> resv \<or>
           (\<exists>x. m (SiblingCpuID c) = Some x \<and> CpuID x = SiblingCpuID c)"
    and h: "CpuID h \<notin> resv"
    "SiblingCpuID h = - 1 \<or> SiblingCpuID h \<in> resv \<or>
           (\<exists>x. m (SiblingCpuID h) = Some x \<and> CpuID x = SiblingCpuID h)"
    by simp_all
  note ih = Cons.IH[OF r]
  show ?case
  proof (cases "CpuID h \<in> P")
    case True
    with ih[of P] show ?thesis by simp
  next
    case nP: False
    show ?thesis
    proof (cases "SiblingCpuID h = - 1 \<or> SiblingCpuID h \<in> resv")
      case True
      with nP h(1) ih[of "insert (CpuID h) P"] show ?thesis by simp
    next
      case False
      with h(2) obtain x where "m (SiblingCpuID h) = Some x" "CpuID x = SiblingCpuID h"
        by blast
      with False have "CpuID (lookupCPUInfo m (SiblingCpuID h)) \<notin> resv"
        by (simp add: lookupCPUInfo_def)
      with nP False h(1) ih[of "insert (SiblingCpuID h) (insert (CpuID h) P)"]
      show ?thesis by simp
    qed
  qed
qed

lemma IndividualCreateSlices_index_not_reserved:
  assumes "siblingsInTopology (CPUDetails topo) resv"
  shows "ran (deviceNameToCPUID (snd (IndividualCreateSlices
            (NewIndividualCoreManager name topo resv)))) \<inter> resv = {}"
proof -
  let ?mgr = "NewIndividualCoreManager name topo resv"
  let ?m = "cpuInfoMap (allCPUs topo)"
  have f: "cpuTopology ?mgr = topo" "reservedCPUs ?mgr = resv" "deviceNameToCPUID ?mgr = Map.empty"
    by (simp_all add: NewIndividualCoreManager_def)
  have sa: "set (availableCPUs topo resv) = set (eligibleCPUs (CPUDetails topo) resv)"
    by (simp add: availableCPUs_eligible)
  have a: "\<forall>c\<in>set (availableCPUs topo resv). CpuID c \<notin> resv"
    by (auto simp: availableCPUs_def)
  have b: "\<forall>c\<in>set (availableCPUs topo resv). SiblingCpuID c = - 1 \<or> SiblingCpuID c \<in> resv \<or>
           (\<exists>x. ?m (SiblingCpuID c) = Some x \<and> CpuID x = SiblingCpuID c)"
  proof
    fix c assume "c \<in> set (availableCPUs topo resv)"
    with assms sa have c: "SiblingCpuID c = - 1 \<or> SiblingCpuID c \<in> resv \<or>
        SiblingCpuID c \<in> CpuID ` set (allCPUs topo)"
      by (auto simp: siblingsInTopology_def list_all_iff allCPUs_def)
    show "SiblingCpuID c = - 1 \<or> SiblingCpuID c \<in> resv \<or>
           (\<exists>x. ?m (SiblingCpuID c) = Some x \<and> CpuID x = SiblingCpuID c)"
    proof (cases "SiblingCpuID c \<in> CpuID ` set (allCPUs topo)")
      case True
      then obtain c' where c': "c' \<in> set (allCPUs topo)" "SiblingCpuID c = CpuID c'" by blast
      from cpuInfoMap_present[OF c'(1)] c'(2)
      obtain x where x: "?m (SiblingCpuID c) = Some x" by auto
      from cpuInfoMap_Some(2)[OF x] x show ?thesis by simp
    next
      case False
      with c show ?thesis by blast
    qed
  qed
  have "ran (deviceNameToCPUID (snd (IndividualCreateSlices ?mgr)))
          \<subseteq> CpuID ` set (concat (coreGroups topo resv))"
    using deviceLoop_ran[of 0 Map.empty "concat (coreGroups topo resv)"]
    by (simp add: IndividualCreateSlices_index f)
  moreover have "CpuID ` set (concat (coreGroups topo resv)) \<subseteq> - resv"
    using groupLoop_not_reserved[OF a b, of "{}"] by (auto simp: coreGroups_eq)
  ultimately show ?thesis by blast
qed

lemma socketAllocLoop_pool:
  assumes "\<forall>topo pool n cpus. takeCPUs topo pool n = Inr cpus \<longrightarrow> cpus \<subseteq> pool"
  shows "socketAllocLoop takeCPUs mgr k acc rs = (s, e) \<Longrightarrow>
           s \<subseteq> acc \<union> (\<Union>j. getSharedCPUs mgr j)"
proof (induction rs arbitrary: k acc)
  case Nil
  then show ?case by (auto split: if_splits)
next
  case (Cons r rs)
  show ?case
  proof (cases "Driver r \<noteq> driverName mgr")
    case True
    with Cons show ?thesis by simp
  next
    case False
    show ?thesis
    proof (cases "deviceNameToSocketID mgr (Device r)")
      case None
      with False Cons.prems show ?thesis by simp
    next
      case (Some c)
      let ?pool = "getSharedCPUs mgr k \<inter> CPUsInSockets (CPUDetails (cpuTopology mgr)) c"
      show ?thesis
      proof (cases "takeCPUs (cpuTopology mgr) ?pool (claimCPUCountOf r)")
        case (Inl err)
        with False Some Cons.prems show ?thesis by (simp add: Let_def)
      next
        case (Inr cur)
        with assms have "cur \<subseteq> ?pool" by blast
        then have c: "cur \<subseteq> (\<Union>j. getSharedCPUs mgr j)" by blast
        from Inr False Some Cons.prems
        have "socketAllocLoop takeCPUs mgr (Suc k) (acc \<union> cur) rs = (s, e)"
          by (simp add: Let_def)
        from Cons.IH[OF this] c show ?thesis by blast
      qed
    qed
  qed
qed

lemma numaAllocLoop_pool:
  assumes "\<forall>topo pool n cpus. takeCPUs topo pool n = Inr cpus \<longrightarrow> cpus \<subseteq> pool"
  shows "numaAllocLoop takeCPUs mgr k acc rs = (s, e) \<Longrightarrow>
           s \<subseteq> acc \<union> (\<Union>j. getSharedCPUs mgr j)"
proof (induction rs arbitrary: k acc)
  case Nil
  then show ?case by (auto split: if_splits)
next
  case (Cons r rs)
  show ?case
  proof (cases "Driver r \<noteq> driverName mgr")
    case True
    with Cons show ?thesis by simp
  next
    case False
    show ?thesis
    proof (cases "deviceNameToNUMANodeID mgr (Device r)")
      case None
      with False Cons.prems show ?thesis by simp
    next
      case (Some c)
      let ?pool = "getSharedCPUs mgr k \<inter> CPUsInNUMANodes (CPUDetails (cpuTopology mgr)) c"
      show ?thesis
      proof (cases "takeCPUs (cpuTopology mgr) ?pool (claimCPUCountOf r)")
        case (Inl err)
        with False Some Cons.prems show ?thesis by (simp add: Let_def)
      next
        case (Inr cur)
        with assms have "cur \<subseteq> ?pool" by blast
        then have c: "cur \<subseteq> (\<Union>j. getSharedCPUs mgr j)" by blast
        from Inr False Some Cons.prems
        have "numaAllocLoop takeCPUs mgr (Suc k) (acc \<union> cur) rs = (s, e)"
          by (simp add: Let_def)
        from Cons.IH[OF this] c show ?thesis by blast
      qed
    qed
  qed
qed

lemma SocketCreateSlices_frame:
  "getSharedCPUs (snd (SocketCreateSlices mgr)) = getSharedCPUs mgr"
  "reservedCPUs (snd (SocketCreateSlices mgr)) = reservedCPUs mgr"
  by (simp_all add: SocketCreateSlices_def split_beta Let_def)

text \<open>
  C2, as the code has it. The individual manager, after \<open>CreateSlices\<close>, resolves no
  claim to a reserved CPU when the sibling ID of every non-reserved CPU is \<open>-1\<close>, or
  reserved, or the ID of a CPU of the topology. A grouped manager takes
  the CPUs from the pool that \<open>getSharedCPUs\<close> returns and does not remove the reserved
  CPUs from it: it returns no reserved CPU provided no pool that \<open>getSharedCPUs\<close> returns
  holds one (and the packing primitive takes the CPUs from the pool it is given).
\<close>

theorem AllocateCPUs_not_reserved:
  "(siblingsInTopology (CPUDetails topo) resv \<and>
    IndividualAllocateCPUs
      (snd (IndividualCreateSlices (NewIndividualCoreManager name topo resv))) claim =
      Return (s, e)
      \<longrightarrow> s \<inter> resv = {}) \<and>
   ((\<forall>topo pool n cpus. takeCPUs topo pool n = Inr cpus \<longrightarrow> cpus \<subseteq> pool) \<and>
    (\<forall>k. getSharedCPUs smgr k \<inter> reservedCPUs smgr = {}) \<and>
    SocketAllocateCPUs takeCPUs smgr claim = Return (s, e)
      \<longrightarrow> s \<inter> reservedCPUs smgr = {}) \<and>
   ((\<forall>topo pool n cpus. takeCPUs topo pool n = Inr cpus \<longrightarrow> cpus \<subseteq> pool) \<and>
    (\<forall>k. getSharedCPUs nmgr k \<inter> reservedCPUs nmgr = {}) \<and>
    NUMAAllocateCPUs takeCPUs nmgr claim = Return (s, e)
      \<longrightarrow> s \<inter> reservedCPUs nmgr = {})"
proof (intro conjI impI)
  let ?mgr = "snd (IndividualCreateSlices (NewIndividualCoreManager name topo resv))"
  assume "siblingsInTopology (CPUDetails topo) resv \<and>
    IndividualAllocateCPUs ?mgr claim = Return (s, e)"
  then have w: "siblingsInTopology (CPUDetails topo) resv"
    and r: "IndividualAllocateCPUs ?mgr claim = Return (s, e)" by simp_all
  from r obtain a :: AllocationResult where "individualAllocLoop ?mgr [] (Results a) = (s, e)"
    by (auto simp: IndividualAllocateCPUs_def split: option.splits)
  from individualAllocLoop_ran[OF this] have "s \<subseteq> ran (deviceNameToCPUID ?mgr)" by simp
  with IndividualCreateSlices_index_not_reserved[OF w, of name]
  show "s \<inter> resv = {}" by blast
next
  assume "(\<forall>topo pool n cpus. takeCPUs topo pool n = Inr cpus \<longrightarrow> cpus \<subseteq> pool) \<and>
    (\<forall>k. getSharedCPUs smgr k \<inter> reservedCPUs smgr = {}) \<and>
    SocketAllocateCPUs takeCPUs smgr claim = Return (s, e)"
  then have t: "\<forall>topo pool n cpus. takeCPUs topo pool n = Inr cpus \<longrightarrow> cpus \<subseteq> pool"
    and p: "\<forall>k. getSharedCPUs smgr k \<inter> reservedCPUs smgr = {}"
    and r: "SocketAllocateCPUs takeCPUs smgr claim = Return (s, e)" by simp_all
  from r obtain a :: AllocationResult where "socketAllocLoop takeCPUs smgr 0 {} (Results a) = (s, e)"
    by (auto simp: SocketAllocateCPUs_def split: option.splits)
  from socketAllocLoop_pool[OF t this] have "s \<subseteq> (\<Union>j. getSharedCPUs smgr j)" by simp
  with p show "s \<inter> reservedCPUs smgr = {}" by blast
next
  assume "(\<forall>topo pool n cpus. takeCPUs topo pool n = Inr cpus \<longrightarrow> cpus \<subseteq> pool) \<and>
    (\<forall>k. getSharedCPUs nmgr k \<inter> reservedCPUs nmgr = {}) \<and>
    NUMAAllocateCPUs takeCPUs nmgr claim = Return (s, e)"
  then have t: "\<forall>topo pool n cpus. takeCPUs topo pool n = Inr cpus \<longrightarrow> cpus \<subseteq> pool"
    and p: "\<forall>k. getSharedCPUs nmgr k \<inter> reservedCPUs nmgr = {}"
    and r: "NUMAAllocateCPUs takeCPUs nmgr claim = Return (s, e)" by simp_all
  from r obtain a :: AllocationResult where "numaAllocLoop takeCPUs nmgr 0 {} (Results a) = (s, e)"
    by (auto simp: NUMAAllocateCPUs_def split: option.splits)
  from numaAllocLoop_pool[OF t this] have "s \<subseteq> (\<Union>j. getSharedCPUs nmgr j)" by simp
  with p show "s \<inter> reservedCPUs nmgr = {}" by blast
qed

theorem AllocateCPUs_not_reserved_witness:
  "siblingsInTopology (CPUDetails smtTopology) {2} \<and>
   IndividualAllocateCPUs
     (snd (IndividualCreateSlices (NewIndividualCoreManager ''dra.cpu'' smtTopology {2})))
     (exampleClaim [exampleResult ''dra.cpu'' ''cpudev000'' 1]) = Return ({0}, None) \<and>
   {0} \<inter> {2 :: int} = {} \<and>
   (\<forall>k. getSharedCPUs unreservedPoolSocketManager k \<inter>
          reservedCPUs unreservedPoolSocketManager = {}) \<and>
   SocketAllocateCPUs takeLowest unreservedPoolSocketManager
     (exampleClaim [exampleResult ''dra.cpu'' ''cpudevsocket000'' 1]) = Return ({1}, None) \<and>
   {1} \<inter> reservedCPUs unreservedPoolSocketManager = {}"
proof -
  let ?ci = "exampleClaim [exampleResult ''dra.cpu'' ''cpudev000'' 1]"
  let ?cs = "exampleClaim [exampleResult ''dra.cpu'' ''cpudevsocket000'' 1]"
  have w: "siblingsInTopology (CPUDetails smtTopology) {2}"
    by code_simp
  have i: "IndividualAllocateCPUs
     (snd (IndividualCreateSlices (NewIndividualCoreManager ''dra.cpu'' smtTopology {2}))) ?ci =
     Return ({0}, None)"
    by code_simp
  note t = AllocateCPUs_not_reserved
    [where topo = smtTopology and name = "''dra.cpu''" and resv = "{2}" and claim = ?ci
       and s = "{0}" and e = None]
  from w i have 1: "{0} \<inter> {2 :: int} = {}"
    by (intro t [THEN conjunct1, rule_format] conjI)
  have c: "\<forall>topo pool n cpus. takeLowest topo pool n = Inr cpus \<longrightarrow> cpus \<subseteq> pool"
    using takeLowest_subset by blast
  have p: "\<forall>k. getSharedCPUs unreservedPoolSocketManager k \<inter>
               reservedCPUs unreservedPoolSocketManager = {}"
    by (simp add: unreservedPoolSocketManager_def SocketCreateSlices_frame
          NewSocketGroupedManager_def)
  have a: "SocketAllocateCPUs takeLowest unreservedPoolSocketManager ?cs = Return ({1}, None)"
    by code_simp
  note u = AllocateCPUs_not_reserved
    [where takeCPUs = takeLowest and smgr = unreservedPoolSocketManager and claim = ?cs
       and s = "{1}" and e = None]
  from c p a have 2: "{1} \<inter> reservedCPUs unreservedPoolSocketManager = {}"
    by (intro u [THEN conjunct2, THEN conjunct1, rule_format] conjI)
  from w i 1 p a 2 show ?thesis by (intro conjI)
qed

text \<open>
  C2, as stated, fails for the grouped managers: with CPU 0 reserved, the socket device
  is published with capacity 3, and when the shared pool holds CPU 0 a claim for one CPU
  of the device is resolved to the reserved CPU 0. It fails for the individual manager
  too: with CPU 0 reserved and CPU 1 naming the sibling 5, which is no CPU of the
  topology, the walk pairs CPU 1 with the zero value that the lookup of 5 in
  \<open>cpuInfoMap\<close> yields, the device \<open>cpudev001\<close> is published for it, and a claim for this
  device is resolved to the reserved CPU 0.
\<close>

theorem AllocateCPUs_reserved_counterexample:
  "SocketAllocateCPUs takeLowest reservedSocketManager
     (exampleClaim [exampleResult ''dra.cpu'' ''cpudevsocket000'' 1]) = Return ({0}, None) \<and>
   0 \<in> reservedCPUs reservedSocketManager \<and>
   map (\<lambda>dv. Capacity dv cpuResourceQualifiedName) (concat (fst (SocketCreateSlices
      (NewSocketGroupedManager ''dra.cpu'' smtTopology {0} (\<lambda>k. {0, 1, 2, 3}))))) = [Some 3] \<and>
   map (map CpuID) (coreGroups orphanSiblingTopology {0}) = [[1, 0]] \<and>
   map Name (concat (fst (IndividualCreateSlices
      (NewIndividualCoreManager ''dra.cpu'' orphanSiblingTopology {0})))) =
     [''cpudev000'', ''cpudev001''] \<and>
   IndividualAllocateCPUs
     (snd (IndividualCreateSlices (NewIndividualCoreManager ''dra.cpu'' orphanSiblingTopology {0})))
     (exampleClaim [exampleResult ''dra.cpu'' ''cpudev001'' 1]) = Return ({0}, None)"
  by code_simp

section \<open>The slices of the grouped managers\<close>

lemma SocketCreateSlices_lengths:
  "map length (fst (SocketCreateSlices mgr)) =
     (if socketsWithAllocatableCPUs (CPUDetails (cpuTopology mgr)) (reservedCPUs mgr) = [] then []
      else [length (socketsWithAllocatableCPUs (CPUDetails (cpuTopology mgr)) (reservedCPUs mgr))])"
  by (simp add: SocketCreateSlices_def Let_def split_beta socketLoop_devices
        socketsWithAllocatableCPUs_def)

lemma NUMACreateSlices_lengths:
  "map length (fst (NUMACreateSlices anyCPUOf mgr)) =
     (if numaNodesWithAllocatableCPUs (CPUDetails (cpuTopology mgr)) (reservedCPUs mgr) = [] then []
      else [length (numaNodesWithAllocatableCPUs (CPUDetails (cpuTopology mgr)) (reservedCPUs mgr))])"
  by (simp add: NUMACreateSlices_def Let_def split_beta numaLoop_devices
        numaNodesWithAllocatableCPUs_def)

lemma Sockets_nonempty: "i \<in> Sockets d \<Longrightarrow> CPUsInSockets d i \<noteq> {}"
proof -
  assume "i \<in> Sockets d"
  then obtain e where "e \<in> set d" "SocketID (snd e) = i" by (auto simp: Sockets_def)
  then have "fst e \<in> CPUsInSockets d i" by (simp add: CPUsInSockets_def)
  then show ?thesis by blast
qed

lemma NUMANodes_nonempty: "i \<in> NUMANodes d \<Longrightarrow> CPUsInNUMANodes d i \<noteq> {}"
proof -
  assume "i \<in> NUMANodes d"
  then obtain e where "e \<in> set d" "NUMANodeID (snd e) = i" by (auto simp: NUMANodes_def)
  then have "fst e \<in> CPUsInNUMANodes d i" by (simp add: CPUsInNUMANodes_def)
  then show ?thesis by blast
qed

lemma socketPerCPU_sockets:
  "length (socketsWithAllocatableCPUs (CPUDetails (socketPerCPUTopology n)) {}) = n"
proof -
  let ?d = "CPUDetails (socketPerCPUTopology n)"
  have S: "Sockets ?d = int ` {0..<n}"
    by (simp add: Sockets_def socketPerCPUTopology_def flatCPU_def comp_def)
  have "\<And>i. i \<in> Sockets ?d \<Longrightarrow> CPUsInSockets ?d i - {} \<noteq> {}"
    using Sockets_nonempty by simp
  then have "\<forall>i\<in>set (cpusetList (Sockets ?d)). CPUsInSockets ?d i - {} \<noteq> {}"
    by (simp add: cpusetList_def Sockets_def)
  then have "socketsWithAllocatableCPUs ?d {} = cpusetList (Sockets ?d)"
    unfolding socketsWithAllocatableCPUs_def by (simp only: filter_True)
  moreover have "length (cpusetList (Sockets ?d)) = card (int ` {0..<n})"
    by (simp add: cpusetList_def S)
  moreover have "card (int ` {0..<n}) = n"
    by (simp add: card_image)
  ultimately show ?thesis by simp
qed

lemma socketPerCPU_numaNodes:
  "length (numaNodesWithAllocatableCPUs (CPUDetails (socketPerCPUTopology n)) {}) = n"
proof -
  let ?d = "CPUDetails (socketPerCPUTopology n)"
  have S: "NUMANodes ?d = int ` {0..<n}"
    by (simp add: NUMANodes_def socketPerCPUTopology_def flatCPU_def comp_def)
  have "\<And>i. i \<in> NUMANodes ?d \<Longrightarrow> CPUsInNUMANodes ?d i - {} \<noteq> {}"
    using NUMANodes_nonempty by simp
  then have "\<forall>i\<in>set (cpusetList (NUMANodes ?d)). CPUsInNUMANodes ?d i - {} \<noteq> {}"
    by (simp add: cpusetList_def NUMANodes_def)
  then have "numaNodesWithAllocatableCPUs ?d {} = cpusetList (NUMANodes ?d)"
    unfolding numaNodesWithAllocatableCPUs_def by (simp only: filter_True)
  moreover have "length (cpusetList (NUMANodes ?d)) = card (int ` {0..<n})"
    by (simp add: cpusetList_def S)
  moreover have "card (int ` {0..<n}) = n"
    by (simp add: card_image)
  ultimately show ?thesis by simp
qed

text \<open>
  C1 does not hold of the code. \<open>CreateSlices\<close> of the grouped managers returns all its
  devices in one slice (\<open>return [][]resourceapi.Device{devices}\<close>) and does not chunk
  them as the individual manager does: for 129 sockets, or 129 NUMA nodes, with a
  non-reserved CPU each, the one slice holds 129 devices, more than
  \<open>maxDevicesPerResourceSlice\<close>.
\<close>

theorem grouped_CreateSlices_single_slice:
  "map length (fst (SocketCreateSlices
     (NewSocketGroupedManager ''dra.cpu'' (socketPerCPUTopology 129) {} (\<lambda>k. {})))) = [129] \<and>
   map length (fst (NUMACreateSlices Min
     (NewNUMAGroupedManager ''dra.cpu'' (socketPerCPUTopology 129) {} (\<lambda>k. {})))) = [129]"
proof -
  let ?s = "NewSocketGroupedManager ''dra.cpu'' (socketPerCPUTopology 129) {} (\<lambda>k. {})"
  let ?n = "NewNUMAGroupedManager ''dra.cpu'' (socketPerCPUTopology 129) {} (\<lambda>k. {})"
  have ts: "cpuTopology ?s = socketPerCPUTopology 129" "reservedCPUs ?s = {}"
    by (simp_all add: NewSocketGroupedManager_def)
  have tn: "cpuTopology ?n = socketPerCPUTopology 129" "reservedCPUs ?n = {}"
    by (simp_all add: NewNUMAGroupedManager_def)
  have ls: "length (socketsWithAllocatableCPUs (CPUDetails (socketPerCPUTopology 129)) {}) = 129"
    by (rule socketPerCPU_sockets)
  then have es: "socketsWithAllocatableCPUs (CPUDetails (socketPerCPUTopology 129)) {} \<noteq> []"
    by (metis length_0_conv zero_neq_numeral)
  have ln: "length (numaNodesWithAllocatableCPUs (CPUDetails (socketPerCPUTopology 129)) {}) = 129"
    by (rule socketPerCPU_numaNodes)
  then have en: "numaNodesWithAllocatableCPUs (CPUDetails (socketPerCPUTopology 129)) {} \<noteq> []"
    by (metis length_0_conv zero_neq_numeral)
  have 1: "map length (fst (SocketCreateSlices ?s)) = [129]"
    unfolding SocketCreateSlices_lengths ts using ls es by simp
  have 2: "map length (fst (NUMACreateSlices Min ?n)) = [129]"
    unfolding NUMACreateSlices_lengths tn using ln en by simp
  from 1 2 show ?thesis by (rule conjI)
qed

section \<open>Determinism of the catalogs\<close>

lemma socketLoop_index:
  "snd (socketLoop topo resv idx ids) =
     fold (\<lambda>i m. m(deviceNameOf cpuDeviceSocketGroupedPrefix i \<mapsto> i))
       (filter (\<lambda>i. CPUsInSockets (CPUDetails topo) i - resv \<noteq> {}) ids) idx"
  by (induction ids arbitrary: idx) (simp_all add: Let_def split_beta)

lemma numaLoop_index:
  "snd (numaLoop anyCPUOf topo resv idx ids) =
     fold (\<lambda>i m. m(deviceNameOf cpuDeviceNUMAGroupedPrefix i \<mapsto> i))
       (filter (\<lambda>i. CPUsInNUMANodes (CPUDetails topo) i - resv \<noteq> {}) ids) idx"
  by (induction ids arbitrary: idx) (simp_all add: Let_def split_beta)

lemma keyedByCpuID_ids:
  assumes "keyedByCpuID d"
  shows "distinct (map CpuID (map snd d))"
proof -
  from assms have "\<forall>e\<in>set d. (CpuID \<circ> snd) e = fst e"
    by (simp add: keyedByCpuID_def list_all_iff)
  then have "map (CpuID \<circ> snd) d = map fst d"
    by (simp only: map_eq_conv)
  moreover from assms have "distinct (map fst d)"
    by (simp add: keyedByCpuID_def)
  ultimately show ?thesis by (simp only: map_map)
qed

lemma keyedByCpuID_set:
  assumes "keyedByCpuID d1" and "distinct (map fst d2)" and "set d1 = set d2"
  shows "keyedByCpuID d2"
  using assms by (simp add: keyedByCpuID_def list_all_iff)

lemma same_entries_mset:
  assumes "distinct (map fst d1)" and "distinct (map fst d2)" and "set d1 = set d2"
  shows "mset d1 = mset d2"
proof -
  from assms(1,2) have "distinct d1" "distinct d2" by (simp_all add: distinct_map)
  with assms(3) show ?thesis by (simp add: set_eq_iff_mset_eq_distinct)
qed

lemma availableCPUs_same:
  assumes "keyedByCpuID (CPUDetails t1)" and "distinct (map fst (CPUDetails t2))"
    and "set (CPUDetails t1) = set (CPUDetails t2)"
  shows "availableCPUs t1 resv = availableCPUs t2 resv"
proof -
  let ?f = "\<lambda>t. filter (\<lambda>cpu. CpuID cpu \<notin> resv) (allCPUs t)"
  from assms have "mset (CPUDetails t1) = mset (CPUDetails t2)"
    by (intro same_entries_mset) (simp_all add: keyedByCpuID_def)
  then have "mset (map snd (CPUDetails t1)) = mset (map snd (CPUDetails t2))"
    by simp
  then have m: "mset (?f t1) = mset (sort_key CpuID (?f t2))"
    by (simp add: allCPUs_def)
  from keyedByCpuID_ids[OF assms(1)] have "inj_on CpuID (set (allCPUs t1))"
    unfolding allCPUs_def by (rule distinct_map[THEN iffD1, THEN conjunct2])
  then have i: "inj_on CpuID (set (?f t1))"
    by (rule inj_on_subset) auto
  have s: "sorted (map CpuID (sort_key CpuID (?f t2)))" by simp
  from sort_key_inj_key_eq[OF m i s] show ?thesis
    by (simp add: availableCPUs_def)
qed

lemma cpuInfoMap_same:
  assumes "keyedByCpuID (CPUDetails t1)" and "distinct (map fst (CPUDetails t2))"
    and "set (CPUDetails t1) = set (CPUDetails t2)"
  shows "cpuInfoMap (allCPUs t1) = cpuInfoMap (allCPUs t2)"
proof
  fix k
  have d1: "distinct (map CpuID (allCPUs t1))"
    using keyedByCpuID_ids[OF assms(1)] by (simp add: allCPUs_def)
  have d2: "distinct (map CpuID (allCPUs t2))"
    using keyedByCpuID_ids[OF keyedByCpuID_set[OF assms]] by (simp add: allCPUs_def)
  from assms(3) have e: "set (allCPUs t1) = set (allCPUs t2)"
    by (simp add: allCPUs_def)
  have "\<And>c. cpuInfoMap (allCPUs t1) k = Some c \<longleftrightarrow> cpuInfoMap (allCPUs t2) k = Some c"
    by (simp add: cpuInfoMap_distinct[OF d1] cpuInfoMap_distinct[OF d2] e)
  note h = this
  show "cpuInfoMap (allCPUs t1) k = cpuInfoMap (allCPUs t2) k"
  proof (cases "cpuInfoMap (allCPUs t1) k")
    case None
    have n: "cpuInfoMap (allCPUs t2) k \<noteq> Some c" for c
      using h[of c] None by simp
    have "cpuInfoMap (allCPUs t2) k = None"
    proof (cases "cpuInfoMap (allCPUs t2) k")
      case None
      then show ?thesis .
    next
      case (Some a)
      with n[of a] show ?thesis by simp
    qed
    with None show ?thesis by simp
  next
    case (Some c)
    with h[of c] show ?thesis by simp
  qed
qed

lemma coreGroups_same:
  assumes "keyedByCpuID (CPUDetails t1)" and "distinct (map fst (CPUDetails t2))"
    and "set (CPUDetails t1) = set (CPUDetails t2)"
  shows "coreGroups t1 resv = coreGroups t2 resv"
  by (simp add: coreGroups_def availableCPUs_same[OF assms] cpuInfoMap_same[OF assms])

lemma socketLoop_same:
  assumes "SMTEnabled t1 = SMTEnabled t2" and "set (CPUDetails t1) = set (CPUDetails t2)"
  shows "socketLoop t1 resv idx ids = socketLoop t2 resv idx ids"
proof -
  have c: "\<And>i. CPUsInSockets (CPUDetails t1) i = CPUsInSockets (CPUDetails t2) i"
    using assms(2) by (simp add: CPUsInSockets_def)
  have mg: "MakeGroupedAttributes t1 = MakeGroupedAttributes t2"
    by (intro ext) (simp add: MakeGroupedAttributes_def assms(1))
  have f: "fst (socketLoop t1 resv idx ids) = fst (socketLoop t2 resv idx ids)"
    unfolding socketLoop_devices c[symmetric] mg ..
  have s: "snd (socketLoop t1 resv idx ids) = snd (socketLoop t2 resv idx ids)"
    unfolding socketLoop_index c[symmetric] ..
  from f s show ?thesis by (rule prod_eqI)
qed

lemma numaLoop_same:
  assumes smt: "SMTEnabled t1 = SMTEnabled t2"
    and k1: "distinct (map fst (CPUDetails t1))" and k2: "distinct (map fst (CPUDetails t2))"
    and same: "set (CPUDetails t1) = set (CPUDetails t2)"
    and one: "numaNodesOnOneSocket (CPUDetails t1) resv"
    and p1: "\<forall>s. finite s \<and> s \<noteq> {} \<longrightarrow> anyCPUOf1 s \<in> s"
    and p2: "\<forall>s. finite s \<and> s \<noteq> {} \<longrightarrow> anyCPUOf2 s \<in> s"
  shows "numaLoop anyCPUOf1 t1 resv idx ids = numaLoop anyCPUOf2 t2 resv idx ids"
proof -
  let ?d1 = "CPUDetails t1" and ?d2 = "CPUDetails t2"
  have c: "\<And>i. CPUsInNUMANodes ?d1 i = CPUsInNUMANodes ?d2 i"
    using same by (simp add: CPUsInNUMANodes_def)
  have m: "map_of ?d1 = map_of ?d2"
    using k1 k2 same by (simp add: map_of_inject_set)
  have look: "\<exists>c. map_of ?d1 k = Some c \<and> NUMANodeID c = i \<and> (k, c) \<in> set ?d1"
    if "k \<in> CPUsInNUMANodes ?d1 i" for k i
  proof -
    from that obtain c where "(k, c) \<in> set ?d1" "NUMANodeID c = i"
      by (auto simp: CPUsInNUMANodes_def)
    with k1 show ?thesis by auto
  qed
  have sock: "SocketID (lookupCPUInfo (map_of ?d1) (anyCPUOf1 (CPUsInNUMANodes ?d1 i - resv))) =
              SocketID (lookupCPUInfo (map_of ?d1) (anyCPUOf2 (CPUsInNUMANodes ?d1 i - resv)))"
    if ne: "CPUsInNUMANodes ?d1 i - resv \<noteq> {}" for i
  proof -
    let ?A = "CPUsInNUMANodes ?d1 i - resv"
    have f: "finite ?A" by simp
    from p1 f ne have a1: "anyCPUOf1 ?A \<in> ?A" by blast
    from p2 f ne have a2: "anyCPUOf2 ?A \<in> ?A" by blast
    from a1 look[of "anyCPUOf1 ?A" i] obtain c1 where c1: "map_of ?d1 (anyCPUOf1 ?A) = Some c1"
      "NUMANodeID c1 = i" "(anyCPUOf1 ?A, c1) \<in> set ?d1" by blast
    from a2 look[of "anyCPUOf2 ?A" i] obtain c2 where c2: "map_of ?d1 (anyCPUOf2 ?A) = Some c2"
      "NUMANodeID c2 = i" "(anyCPUOf2 ?A, c2) \<in> set ?d1" by blast
    from one c1(3) c2(3) have "NUMANodeID c1 \<noteq> NUMANodeID c2 \<or> anyCPUOf1 ?A \<in> resv \<or>
        anyCPUOf2 ?A \<in> resv \<or> SocketID c1 = SocketID c2"
      unfolding numaNodesOnOneSocket_def list_all_iff by fastforce
    with c1(2) c2(2) a1 a2 have "SocketID c1 = SocketID c2" by simp
    with c1(1) c2(1) show ?thesis
      by (simp add: lookupCPUInfo_def)
  qed
  have mg: "MakeGroupedAttributes t1 = MakeGroupedAttributes t2"
    by (intro ext) (simp add: MakeGroupedAttributes_def smt)
  have sock': "SocketID (lookupCPUInfo (map_of ?d1) (anyCPUOf1 (CPUsInNUMANodes ?d1 i - resv))) =
               SocketID (lookupCPUInfo (map_of ?d1) (anyCPUOf2 (CPUsInNUMANodes ?d1 i - resv)))"
    if "i \<in> set (filter (\<lambda>i. CPUsInNUMANodes ?d1 i - resv \<noteq> {}) ids)" for i
    using that by (intro sock) simp
  have f: "fst (numaLoop anyCPUOf1 t1 resv idx ids) = fst (numaLoop anyCPUOf2 t2 resv idx ids)"
    unfolding numaLoop_devices c[symmetric] mg m[symmetric]
    by (rule map_cong[OF refl]) (simp only: sock')
  have s: "snd (numaLoop anyCPUOf1 t1 resv idx ids) = snd (numaLoop anyCPUOf2 t2 resv idx ids)"
    unfolding numaLoop_index c[symmetric] ..
  from f s show ?thesis by (rule prod_eqI)
qed


lemma IndividualCreateSlices_same:
  assumes "coreGroups t1 resv = coreGroups t2 resv"
  shows "fst (IndividualCreateSlices (NewIndividualCoreManager name t1 resv)) =
         fst (IndividualCreateSlices (NewIndividualCoreManager name t2 resv))"
    and "deviceNameToCPUID (snd (IndividualCreateSlices (NewIndividualCoreManager name t1 resv))) =
         deviceNameToCPUID (snd (IndividualCreateSlices (NewIndividualCoreManager name t2 resv)))"
  using assms
  by (simp_all add: IndividualCreateSlices_def NewIndividualCoreManager_def split_beta Let_def)

lemma SocketCreateSlices_same:
  assumes "SMTEnabled t1 = SMTEnabled t2" and "set (CPUDetails t1) = set (CPUDetails t2)"
  shows "fst (SocketCreateSlices (NewSocketGroupedManager name t1 resv shared)) =
         fst (SocketCreateSlices (NewSocketGroupedManager name t2 resv shared))"
    and "deviceNameToSocketID (snd (SocketCreateSlices (NewSocketGroupedManager name t1 resv shared))) =
         deviceNameToSocketID (snd (SocketCreateSlices (NewSocketGroupedManager name t2 resv shared)))"
proof -
  from assms(2) have "Sockets (CPUDetails t1) = Sockets (CPUDetails t2)"
    by (simp add: Sockets_def)
  with socketLoop_same[OF assms]
  show "fst (SocketCreateSlices (NewSocketGroupedManager name t1 resv shared)) =
         fst (SocketCreateSlices (NewSocketGroupedManager name t2 resv shared))"
    and "deviceNameToSocketID (snd (SocketCreateSlices (NewSocketGroupedManager name t1 resv shared))) =
         deviceNameToSocketID (snd (SocketCreateSlices (NewSocketGroupedManager name t2 resv shared)))"
    by (simp_all add: SocketCreateSlices_def NewSocketGroupedManager_def split_beta Let_def)
qed

lemma NUMACreateSlices_same:
  assumes "\<And>idx ids. numaLoop anyCPUOf1 t1 resv idx ids = numaLoop anyCPUOf2 t2 resv idx ids"
    and "set (CPUDetails t1) = set (CPUDetails t2)"
  shows "fst (NUMACreateSlices anyCPUOf1 (NewNUMAGroupedManager name t1 resv shared)) =
         fst (NUMACreateSlices anyCPUOf2 (NewNUMAGroupedManager name t2 resv shared))"
    and "deviceNameToNUMANodeID
           (snd (NUMACreateSlices anyCPUOf1 (NewNUMAGroupedManager name t1 resv shared))) =
         deviceNameToNUMANodeID
           (snd (NUMACreateSlices anyCPUOf2 (NewNUMAGroupedManager name t2 resv shared)))"
proof -
  from assms(2) have "NUMANodes (CPUDetails t1) = NUMANodes (CPUDetails t2)"
    by (simp add: NUMANodes_def)
  with assms(1)
  show "fst (NUMACreateSlices anyCPUOf1 (NewNUMAGroupedManager name t1 resv shared)) =
         fst (NUMACreateSlices anyCPUOf2 (NewNUMAGroupedManager name t2 resv shared))"
    and "deviceNameToNUMANodeID
           (snd (NUMACreateSlices anyCPUOf1 (NewNUMAGroupedManager name t1 resv shared))) =
         deviceNameToNUMANodeID
           (snd (NUMACreateSlices anyCPUOf2 (NewNUMAGroupedManager name t2 resv shared)))"
    by (simp_all add: NUMACreateSlices_def NewNUMAGroupedManager_def split_beta Let_def)
qed

text \<open>
  C10, as the code has it. Two runs of \<open>CreateSlices\<close> on fresh managers of one strategy
  for one topology (the same Go map, its entries visited in any two orders) give the same
  slices and the same index: for the socket manager always; for the individual manager
  when every entry is stored under its own \<open>CpuID\<close>; for the NUMA manager, whichever
  members \<open>UnsortedList()[0]\<close> yields in the two runs, when the non-reserved CPUs of each
  NUMA node are on one socket.
\<close>

theorem CreateSlices_deterministic:
  assumes "SMTEnabled t1 = SMTEnabled t2"
    and "distinctKeys (CPUDetails t1)" and "distinctKeys (CPUDetails t2)"
    and "set (CPUDetails t1) = set (CPUDetails t2)"
  shows
  "(keyedByCpuID (CPUDetails t1) \<longrightarrow>
      fst (IndividualCreateSlices (NewIndividualCoreManager name t1 resv)) =
      fst (IndividualCreateSlices (NewIndividualCoreManager name t2 resv)) \<and>
      deviceNameToCPUID (snd (IndividualCreateSlices (NewIndividualCoreManager name t1 resv))) =
      deviceNameToCPUID (snd (IndividualCreateSlices (NewIndividualCoreManager name t2 resv)))) \<and>
   fst (SocketCreateSlices (NewSocketGroupedManager name t1 resv shared)) =
   fst (SocketCreateSlices (NewSocketGroupedManager name t2 resv shared)) \<and>
   deviceNameToSocketID (snd (SocketCreateSlices (NewSocketGroupedManager name t1 resv shared))) =
   deviceNameToSocketID (snd (SocketCreateSlices (NewSocketGroupedManager name t2 resv shared))) \<and>
   (numaNodesOnOneSocket (CPUDetails t1) resv \<and>
    (\<forall>s. finite s \<and> s \<noteq> {} \<longrightarrow> anyCPUOf1 s \<in> s) \<and>
    (\<forall>s. finite s \<and> s \<noteq> {} \<longrightarrow> anyCPUOf2 s \<in> s) \<longrightarrow>
      fst (NUMACreateSlices anyCPUOf1 (NewNUMAGroupedManager name t1 resv shared)) =
      fst (NUMACreateSlices anyCPUOf2 (NewNUMAGroupedManager name t2 resv shared)) \<and>
      deviceNameToNUMANodeID
        (snd (NUMACreateSlices anyCPUOf1 (NewNUMAGroupedManager name t1 resv shared))) =
      deviceNameToNUMANodeID
        (snd (NUMACreateSlices anyCPUOf2 (NewNUMAGroupedManager name t2 resv shared))))"
proof (intro conjI impI)
  from assms(2,3) have k: "distinct (map fst (CPUDetails t1))" "distinct (map fst (CPUDetails t2))"
    by (simp_all add: distinctKeys_def)
  {
    assume "keyedByCpuID (CPUDetails t1)"
    from coreGroups_same[OF this k(2) assms(4)]
    have g: "coreGroups t1 resv = coreGroups t2 resv" .
    from IndividualCreateSlices_same(1)[OF g]
    show "fst (IndividualCreateSlices (NewIndividualCoreManager name t1 resv)) =
      fst (IndividualCreateSlices (NewIndividualCoreManager name t2 resv))" .
    from IndividualCreateSlices_same(2)[OF g]
    show "deviceNameToCPUID (snd (IndividualCreateSlices (NewIndividualCoreManager name t1 resv))) =
      deviceNameToCPUID (snd (IndividualCreateSlices (NewIndividualCoreManager name t2 resv)))" .
  }
  from SocketCreateSlices_same(1)[OF assms(1,4)]
  show "fst (SocketCreateSlices (NewSocketGroupedManager name t1 resv shared)) =
   fst (SocketCreateSlices (NewSocketGroupedManager name t2 resv shared))" .
  from SocketCreateSlices_same(2)[OF assms(1,4)]
  show "deviceNameToSocketID (snd (SocketCreateSlices (NewSocketGroupedManager name t1 resv shared))) =
   deviceNameToSocketID (snd (SocketCreateSlices (NewSocketGroupedManager name t2 resv shared)))" .
  {
    assume "numaNodesOnOneSocket (CPUDetails t1) resv \<and>
      (\<forall>s. finite s \<and> s \<noteq> {} \<longrightarrow> anyCPUOf1 s \<in> s) \<and>
      (\<forall>s. finite s \<and> s \<noteq> {} \<longrightarrow> anyCPUOf2 s \<in> s)"
    then have one: "numaNodesOnOneSocket (CPUDetails t1) resv"
      and p1: "\<forall>s. finite s \<and> s \<noteq> {} \<longrightarrow> anyCPUOf1 s \<in> s"
      and p2: "\<forall>s. finite s \<and> s \<noteq> {} \<longrightarrow> anyCPUOf2 s \<in> s" by simp_all
    have l: "\<And>idx ids. numaLoop anyCPUOf1 t1 resv idx ids = numaLoop anyCPUOf2 t2 resv idx ids"
      by (rule numaLoop_same[OF assms(1) k assms(4) one p1 p2])
    from NUMACreateSlices_same(1)[OF l assms(4)]
    show "fst (NUMACreateSlices anyCPUOf1 (NewNUMAGroupedManager name t1 resv shared)) =
      fst (NUMACreateSlices anyCPUOf2 (NewNUMAGroupedManager name t2 resv shared))" .
    from NUMACreateSlices_same(2)[OF l assms(4)]
    show "deviceNameToNUMANodeID
        (snd (NUMACreateSlices anyCPUOf1 (NewNUMAGroupedManager name t1 resv shared))) =
      deviceNameToNUMANodeID
        (snd (NUMACreateSlices anyCPUOf2 (NewNUMAGroupedManager name t2 resv shared)))" .
  }
qed

theorem CreateSlices_deterministic_witness:
  "fst (IndividualCreateSlices (NewIndividualCoreManager ''dra.cpu'' smtTopology {2})) =
   fst (IndividualCreateSlices (NewIndividualCoreManager ''dra.cpu'' smtTopologyReversed {2})) \<and>
   deviceNameToCPUID
     (snd (IndividualCreateSlices (NewIndividualCoreManager ''dra.cpu'' smtTopology {2}))) =
   deviceNameToCPUID
     (snd (IndividualCreateSlices (NewIndividualCoreManager ''dra.cpu'' smtTopologyReversed {2}))) \<and>
   fst (SocketCreateSlices (NewSocketGroupedManager ''dra.cpu'' smtTopology {2} (\<lambda>k. {}))) =
   fst (SocketCreateSlices (NewSocketGroupedManager ''dra.cpu'' smtTopologyReversed {2} (\<lambda>k. {}))) \<and>
   fst (NUMACreateSlices Min (NewNUMAGroupedManager ''dra.cpu'' smtTopology {2} (\<lambda>k. {}))) =
   fst (NUMACreateSlices Max (NewNUMAGroupedManager ''dra.cpu'' smtTopologyReversed {2} (\<lambda>k. {}))) \<and>
   map (\<lambda>dv. Attributes dv ''dra.cpu/socketID'')
     (concat (fst (NUMACreateSlices Max
        (NewNUMAGroupedManager ''dra.cpu'' smtTopologyReversed {2} (\<lambda>k. {}))))) =
     [Some (IntValue 0)]"
proof -
  have a1: "SMTEnabled smtTopology = SMTEnabled smtTopologyReversed"
    by (simp add: smtTopology_def smtTopologyReversed_def)
  have a2: "distinctKeys (CPUDetails smtTopology)" by code_simp
  have a3: "distinctKeys (CPUDetails smtTopologyReversed)" by code_simp
  have a4: "set (CPUDetails smtTopology) = set (CPUDetails smtTopologyReversed)"
    by (simp add: smtTopologyReversed_def)
  have k: "keyedByCpuID (CPUDetails smtTopology)" by code_simp
  have o: "numaNodesOnOneSocket (CPUDetails smtTopology) {2}" by code_simp
  have p1: "\<forall>s::int set. finite s \<and> s \<noteq> {} \<longrightarrow> Min s \<in> s" by simp
  have p2: "\<forall>s::int set. finite s \<and> s \<noteq> {} \<longrightarrow> Max s \<in> s" by simp
  note t = CreateSlices_deterministic [OF a1 a2 a3 a4, where name = "''dra.cpu''"
             and resv = "{2}" and shared = "\<lambda>k. {}" and ?anyCPUOf1.0 = Min and ?anyCPUOf2.0 = Max]
  note i = t [THEN conjunct1, rule_format, OF k]
  note s = t [THEN conjunct2, THEN conjunct1]
  from o p1 p2 have "numaNodesOnOneSocket (CPUDetails smtTopology) {2} \<and>
    (\<forall>s::int set. finite s \<and> s \<noteq> {} \<longrightarrow> Min s \<in> s) \<and>
    (\<forall>s::int set. finite s \<and> s \<noteq> {} \<longrightarrow> Max s \<in> s)" by (intro conjI)
  note n = t [THEN conjunct2, THEN conjunct2, THEN conjunct2, rule_format, OF this]
  have v: "map (\<lambda>dv. Attributes dv ''dra.cpu/socketID'')
     (concat (fst (NUMACreateSlices Max
        (NewNUMAGroupedManager ''dra.cpu'' smtTopologyReversed {2} (\<lambda>k. {}))))) =
     [Some (IntValue 0)]"
    by code_simp
  show ?thesis
    by (intro conjI) (rule i [THEN conjunct1], rule i [THEN conjunct2], rule s,
      rule n [THEN conjunct1], rule v)
qed

text \<open>
  C10, as stated, fails: when a NUMA node holds CPUs of two sockets, the attribute
  \<open>dra.cpu/socketID\<close> of its device is the socket of whichever CPU \<open>UnsortedList()[0]\<close>
  yields, here socket 0 in one run and socket 1 in another.
\<close>

theorem NUMACreateSlices_socketID_counterexample:
  "map (\<lambda>dv. Attributes dv ''dra.cpu/socketID'')
     (concat (fst (NUMACreateSlices Min
        (NewNUMAGroupedManager ''dra.cpu'' splitNUMATopology {} (\<lambda>k. {}))))) =
     [Some (IntValue 0)] \<and>
   map (\<lambda>dv. Attributes dv ''dra.cpu/socketID'')
     (concat (fst (NUMACreateSlices Max
        (NewNUMAGroupedManager ''dra.cpu'' splitNUMATopology {} (\<lambda>k. {}))))) =
     [Some (IntValue 1)] \<and>
   Min (CPUsInNUMANodes (CPUDetails splitNUMATopology) 0 - {}) \<in>
     CPUsInNUMANodes (CPUDetails splitNUMATopology) 0 - {} \<and>
   Max (CPUsInNUMANodes (CPUDetails splitNUMATopology) 0 - {}) \<in>
     CPUsInNUMANodes (CPUDetails splitNUMATopology) 0 - {}"
  by code_simp

section \<open>The grouping of the individual manager: the claim\<close>









end
